theory Spec2Isabelle
  imports Main
begin

section \<open>Data model of \<^verbatim>\<open>src/creational/singleton/example.ts\<close>\<close>

text \<open>
  The status is the string-literal union \<^verbatim>\<open>"connected" | "connecting" | "disconnected"\<close>.
\<close>

datatype ConnectionStatus = connected | connecting | disconnected

text \<open>
  \<^verbatim>\<open>interface Message\<close> and \<^verbatim>\<open>interface Attachment\<close>. An optional field is an
  \<open>option\<close>. The fields \<^verbatim>\<open>id\<close>, \<^verbatim>\<open>type\<close>, \<^verbatim>\<open>size\<close> and \<^verbatim>\<open>file\<close> carry a suffix
  because the plain names are taken in Isabelle. The two \<^verbatim>\<open>number\<close> fields are stored
  and handed back, never computed with; they are integers here (milliseconds, bytes). A
  \<^verbatim>\<open>File\<close> is an object of the host environment, known only by its identity.
\<close>

record Message =
  id_msg :: "string option"
  content :: string
  sender :: string
  timestamp :: int

datatype File = File nat

record Attachment =
  id_att :: "string option"
  url :: string
  type_att :: string
  size_att :: int
  file_att :: "File option"

text \<open>
  Objects live in a store and are known by reference, since the program is about which
  object a reference denotes. A reference is the position of the object in the store;
  \<^verbatim>\<open>new\<close> appends, so that a new object is different from every older one, and nothing
  is ever removed.

  The instance fields of \<^verbatim>\<open>class StateManager\<close> form a record. The two arrays are
  private, each is created by its own initialiser, and they are modelled by their contents:
  \<^verbatim>\<open>getMessages\<close> and \<^verbatim>\<open>getAttachments\<close> hand back the contents at the time of the
  call. In the source \<^verbatim>\<open>pushMessage\<close> puts a new array in the field and
  \<^verbatim>\<open>pushAttachment\<close> extends the array in place, so an array that a client has kept from
  an earlier \<^verbatim>\<open>getAttachments\<close> grows with later pushes, and one kept from
  \<^verbatim>\<open>getMessages\<close> does not. The model does not follow arrays that a client keeps.
\<close>

type_synonym ref = nat

record StateManager =
  connectionStatus :: ConnectionStatus
  messages :: "Message list"
  attachments :: "Attachment list"

text \<open>
  \<^verbatim>\<open>class SessionHandler\<close> has no field. \<^verbatim>\<open>class KKTLiveChatSDK\<close> has the one field
  \<^verbatim>\<open>sessionHandler\<close>; \<open>None\<close> is \<^verbatim>\<open>undefined\<close>, which is what the field holds before the
  constructor assigns it and what the \<^verbatim>\<open>?.\<close> of every method tests for.
\<close>

record KKTLiveChatSDK =
  sessionHandler :: "ref option"

datatype obj =
    StateManager_obj StateManager
  | SessionHandler_obj
  | KKTLiveChatSDK_obj KKTLiveChatSDK

text \<open>
  What \<^verbatim>\<open>console.log\<close> has printed: one entry per call, holding the arguments of the call.
\<close>

datatype console_arg = Text string | Logged Message

text \<open>
  The state of the process: the store, the static field \<^verbatim>\<open>StateManager.instance\<close>
  (\<open>None\<close> while it is \<^verbatim>\<open>undefined\<close>) and the console.
\<close>

record world =
  heap :: "obj list"
  StateManager_instance :: "ref option"
  console :: "console_arg list list"

definition init_world :: world where
  "init_world = \<lparr>heap = [], StateManager_instance = None, console = []\<rparr>"

text \<open>
  The only way an operation of this program can break is a \<^verbatim>\<open>TypeError\<close>: a method called
  on \<^verbatim>\<open>undefined\<close>, or on something that is not an object of the class that has the method.
\<close>

datatype error = TypeError

definition and_then :: "error + 'a \<Rightarrow> ('a \<Rightarrow> error + 'b) \<Rightarrow> error + 'b" where
  "and_then x f = (case x of Inl e \<Rightarrow> Inl e | Inr a \<Rightarrow> f a)"

subsection \<open>The store\<close>

definition alloc :: "obj \<Rightarrow> world \<Rightarrow> ref \<times> world" where
  "alloc x w = (length (heap w), w\<lparr>heap := heap w @ [x]\<rparr>)"

definition lookup :: "world \<Rightarrow> ref \<Rightarrow> obj option" where
  "lookup w r = (if r < length (heap w) then Some (heap w ! r) else None)"

definition store :: "ref \<Rightarrow> obj \<Rightarrow> world \<Rightarrow> world" where
  "store r x w = w\<lparr>heap := (heap w)[r := x]\<rparr>"

definition console_log :: "console_arg list \<Rightarrow> world \<Rightarrow> world" where
  "console_log args w = w\<lparr>console := console w @ [args]\<rparr>"

text \<open>The receiver of a method call, looked up as an object of the method's class.\<close>

definition StateManager_at :: "world \<Rightarrow> ref \<Rightarrow> StateManager option" where
  "StateManager_at w r =
     (case lookup w r of Some (StateManager_obj sm) \<Rightarrow> Some sm | _ \<Rightarrow> None)"

definition is_SessionHandler :: "world \<Rightarrow> ref \<Rightarrow> bool" where
  "is_SessionHandler w r = (lookup w r = Some SessionHandler_obj)"

definition KKTLiveChatSDK_at :: "world \<Rightarrow> ref \<Rightarrow> KKTLiveChatSDK option" where
  "KKTLiveChatSDK_at w r =
     (case lookup w r of Some (KKTLiveChatSDK_obj k) \<Rightarrow> Some k | _ \<Rightarrow> None)"

section \<open>class StateManager\<close>

text \<open>
  A method takes its receiver \<open>this\<close> and its arguments, then the state; it returns the
  state it leaves, with its value when it has one. Called on a reference that is not an
  object of its class, it is a \<^verbatim>\<open>TypeError\<close>. A constructor and the static accessor have
  no receiver and no error result.

  The class declares no constructor: \<^verbatim>\<open>new StateManager()\<close> runs the three field
  initialisers.
\<close>

definition StateManager_new :: "world \<Rightarrow> ref \<times> world" where
  "StateManager_new w =
     alloc (StateManager_obj
       \<lparr>connectionStatus = disconnected, messages = [], attachments = []\<rparr>) w"

definition StateManager_getInstance :: "world \<Rightarrow> ref \<times> world" where
  "StateManager_getInstance w =
     (case StateManager_instance w of
        None \<Rightarrow>
          (let (r, w') = StateManager_new w
           in (r, w'\<lparr>StateManager_instance := Some r\<rparr>))
      | Some r \<Rightarrow> (r, w))"

definition StateManager_setConnectionStatus ::
    "ref \<Rightarrow> ConnectionStatus \<Rightarrow> world \<Rightarrow> error + world" where
  "StateManager_setConnectionStatus this status w =
     (case StateManager_at w this of
        None \<Rightarrow> Inl TypeError
      | Some sm \<Rightarrow> Inr (store this (StateManager_obj (sm\<lparr>connectionStatus := status\<rparr>)) w))"

definition StateManager_getConnectionStatus :: "ref \<Rightarrow> world \<Rightarrow> error + ConnectionStatus" where
  "StateManager_getConnectionStatus this w =
     (case StateManager_at w this of
        None \<Rightarrow> Inl TypeError
      | Some sm \<Rightarrow> Inr (connectionStatus sm))"

definition StateManager_pushMessage :: "ref \<Rightarrow> Message \<Rightarrow> world \<Rightarrow> error + world" where
  "StateManager_pushMessage this message w =
     (case StateManager_at w this of
        None \<Rightarrow> Inl TypeError
      | Some sm \<Rightarrow>
          (let w1 = console_log [Text ''Pushing message:'', Logged message] w
           in Inr (store this (StateManager_obj (sm\<lparr>messages := messages sm @ [message]\<rparr>)) w1)))"

definition StateManager_getMessages :: "ref \<Rightarrow> world \<Rightarrow> error + Message list" where
  "StateManager_getMessages this w =
     (case StateManager_at w this of
        None \<Rightarrow> Inl TypeError
      | Some sm \<Rightarrow> Inr (messages sm))"

definition StateManager_pushAttachment :: "ref \<Rightarrow> Attachment \<Rightarrow> world \<Rightarrow> error + world" where
  "StateManager_pushAttachment this attachment w =
     (case StateManager_at w this of
        None \<Rightarrow> Inl TypeError
      | Some sm \<Rightarrow>
          Inr (store this (StateManager_obj (sm\<lparr>attachments := attachments sm @ [attachment]\<rparr>)) w))"

definition StateManager_getAttachments :: "ref \<Rightarrow> world \<Rightarrow> error + Attachment list" where
  "StateManager_getAttachments this w =
     (case StateManager_at w this of
        None \<Rightarrow> Inl TypeError
      | Some sm \<Rightarrow> Inr (attachments sm))"

section \<open>class SessionHandler\<close>

definition SessionHandler_new :: "world \<Rightarrow> ref \<times> world" where
  "SessionHandler_new w =
     (let (this, w1) = alloc SessionHandler_obj w
      in (this, console_log [Text ''SessionHandler constructor''] w1))"

definition SessionHandler_connect :: "ref \<Rightarrow> world \<Rightarrow> error + world" where
  "SessionHandler_connect this w =
     (if is_SessionHandler w this then
        (let (sm, w1) = StateManager_getInstance w
         in StateManager_setConnectionStatus sm connecting w1)
      else Inl TypeError)"

definition SessionHandler_disconnect :: "ref \<Rightarrow> world \<Rightarrow> error + world" where
  "SessionHandler_disconnect this w =
     (if is_SessionHandler w this then
        (let (sm, w1) = StateManager_getInstance w
         in StateManager_setConnectionStatus sm disconnected w1)
      else Inl TypeError)"

definition SessionHandler_sendMessage :: "ref \<Rightarrow> Message \<Rightarrow> world \<Rightarrow> error + world" where
  "SessionHandler_sendMessage this message w =
     (if is_SessionHandler w this then
        (let (sm, w1) = StateManager_getInstance w
         in StateManager_pushMessage sm message w1)
      else Inl TypeError)"

definition SessionHandler_sendAttachment :: "ref \<Rightarrow> Attachment \<Rightarrow> world \<Rightarrow> error + world" where
  "SessionHandler_sendAttachment this attachment w =
     (if is_SessionHandler w this then
        (let (sm, w1) = StateManager_getInstance w
         in StateManager_pushAttachment sm attachment w1)
      else Inl TypeError)"

definition SessionHandler_getMessages :: "ref \<Rightarrow> world \<Rightarrow> error + Message list \<times> world" where
  "SessionHandler_getMessages this w =
     (if is_SessionHandler w this then
        (let (sm, w1) = StateManager_getInstance w
         in and_then (StateManager_getMessages sm w1) (\<lambda>ms. Inr (ms, w1)))
      else Inl TypeError)"

definition SessionHandler_getAttachments ::
    "ref \<Rightarrow> world \<Rightarrow> error + Attachment list \<times> world" where
  "SessionHandler_getAttachments this w =
     (if is_SessionHandler w this then
        (let (sm, w1) = StateManager_getInstance w
         in and_then (StateManager_getAttachments sm w1) (\<lambda>as. Inr (as, w1)))
      else Inl TypeError)"

section \<open>class KKTLiveChatSDK\<close>

definition KKTLiveChatSDK_new :: "world \<Rightarrow> ref \<times> world" where
  "KKTLiveChatSDK_new w =
     (let (this, w1) = alloc (KKTLiveChatSDK_obj \<lparr>sessionHandler = None\<rparr>) w;
          w2 = console_log [Text ''KKTLiveChatSDK constructor''] w1;
          (sh, w3) = SessionHandler_new w2
      in (this, store this (KKTLiveChatSDK_obj \<lparr>sessionHandler = Some sh\<rparr>) w3))"

text \<open>
  \<^verbatim>\<open>this.sessionHandler?.m()\<close>: when the field is \<^verbatim>\<open>undefined\<close> nothing is called and the
  value is \<^verbatim>\<open>undefined\<close>.
\<close>

definition KKTLiveChatSDK_connect :: "ref \<Rightarrow> world \<Rightarrow> error + world" where
  "KKTLiveChatSDK_connect this w =
     (case KKTLiveChatSDK_at w this of
        None \<Rightarrow> Inl TypeError
      | Some k \<Rightarrow>
          (case sessionHandler k of
             None \<Rightarrow> Inr w
           | Some sh \<Rightarrow> SessionHandler_connect sh w))"

definition KKTLiveChatSDK_disconnect :: "ref \<Rightarrow> world \<Rightarrow> error + world" where
  "KKTLiveChatSDK_disconnect this w =
     (case KKTLiveChatSDK_at w this of
        None \<Rightarrow> Inl TypeError
      | Some k \<Rightarrow>
          (case sessionHandler k of
             None \<Rightarrow> Inr w
           | Some sh \<Rightarrow> SessionHandler_disconnect sh w))"

definition KKTLiveChatSDK_sendMessage :: "ref \<Rightarrow> Message \<Rightarrow> world \<Rightarrow> error + world" where
  "KKTLiveChatSDK_sendMessage this message w =
     (case KKTLiveChatSDK_at w this of
        None \<Rightarrow> Inl TypeError
      | Some k \<Rightarrow>
          (case sessionHandler k of
             None \<Rightarrow> Inr w
           | Some sh \<Rightarrow> SessionHandler_sendMessage sh message w))"

definition KKTLiveChatSDK_sendAttachment :: "ref \<Rightarrow> Attachment \<Rightarrow> world \<Rightarrow> error + world" where
  "KKTLiveChatSDK_sendAttachment this attachment w =
     (case KKTLiveChatSDK_at w this of
        None \<Rightarrow> Inl TypeError
      | Some k \<Rightarrow>
          (case sessionHandler k of
             None \<Rightarrow> Inr w
           | Some sh \<Rightarrow> SessionHandler_sendAttachment sh attachment w))"

definition KKTLiveChatSDK_getMessages ::
    "ref \<Rightarrow> world \<Rightarrow> error + Message list option \<times> world" where
  "KKTLiveChatSDK_getMessages this w =
     (case KKTLiveChatSDK_at w this of
        None \<Rightarrow> Inl TypeError
      | Some k \<Rightarrow>
          (case sessionHandler k of
             None \<Rightarrow> Inr (None, w)
           | Some sh \<Rightarrow>
               and_then (SessionHandler_getMessages sh w) (\<lambda>(ms, w'). Inr (Some ms, w'))))"

definition KKTLiveChatSDK_getAttachments ::
    "ref \<Rightarrow> world \<Rightarrow> error + Attachment list option \<times> world" where
  "KKTLiveChatSDK_getAttachments this w =
     (case KKTLiveChatSDK_at w this of
        None \<Rightarrow> Inl TypeError
      | Some k \<Rightarrow>
          (case sessionHandler k of
             None \<Rightarrow> Inr (None, w)
           | Some sh \<Rightarrow>
               and_then (SessionHandler_getAttachments sh w) (\<lambda>(as, w'). Inr (Some as, w'))))"

section \<open>The script at the end of the module\<close>

text \<open>
  \<^verbatim>\<open>forEach\<close> with a callback that logs its element.
\<close>

fun forEach_log :: "Message list \<Rightarrow> world \<Rightarrow> world" where
  "forEach_log [] w = w"
| "forEach_log (message # rest) w = forEach_log rest (console_log [Logged message] w)"

text \<open>
  The two parameters are the values of the two \<^verbatim>\<open>Date.now()\<close> calls. The script calls
  \<^verbatim>\<open>forEach\<close> on what \<^verbatim>\<open>sdk.getMessages()\<close> returns, which is a \<^verbatim>\<open>TypeError\<close> on
  \<^verbatim>\<open>undefined\<close>. The result is the constant \<^verbatim>\<open>sdk\<close> and the final state.
\<close>

definition main :: "int \<Rightarrow> int \<Rightarrow> world \<Rightarrow> error + ref \<times> world" where
  "main t1 t2 w0 =
     (let (sdk, w1) = KKTLiveChatSDK_new w0 in
      and_then (KKTLiveChatSDK_connect sdk w1) (\<lambda>w2.
      and_then (KKTLiveChatSDK_sendMessage sdk
                 \<lparr>id_msg = None, content = ''Hello, how are you?'',
                  sender = ''John Doe'', timestamp = t1\<rparr> w2) (\<lambda>w3.
      and_then (KKTLiveChatSDK_sendMessage sdk
                 \<lparr>id_msg = None, content = ''I need your help to fix my computer'',
                  sender = ''John Doe'', timestamp = t2\<rparr> w3) (\<lambda>w4.
      let w5 = console_log [Text (CHR 0x0A # ''Messages to send:'')] w4 in
      and_then (KKTLiveChatSDK_getMessages sdk w5) (\<lambda>(result, w6).
        case result of
          None \<Rightarrow> Inl TypeError
        | Some ms \<Rightarrow> Inr (sdk, forEach_log ms w6))))))"

section \<open>Programs of a client: sequences of public calls\<close>

text \<open>
  A client of the module creates facades and calls public methods, in any order. A call
  names its receiver by reference; the static accessor and the constructors have none.
  The client comes by the \<^verbatim>\<open>StateManager\<close> as the facades do, through the accessor: the
  class does not hide its constructor, but \<^verbatim>\<open>new StateManager()\<close> is not among the calls
  considered here.
\<close>

datatype facade_op =
    Connect
  | Disconnect
  | SendMessage Message
  | SendAttachment Attachment
  | GetMessages
  | GetAttachments

datatype call =
    Call_getInstance
  | Call_setConnectionStatus ref ConnectionStatus
  | Call_getConnectionStatus ref
  | Call_pushMessage ref Message
  | Call_getMessages ref
  | Call_pushAttachment ref Attachment
  | Call_getAttachments ref
  | New_SessionHandler
  | On_SessionHandler ref facade_op
  | New_KKTLiveChatSDK
  | On_KKTLiveChatSDK ref facade_op

datatype val =
    V_undefined
  | V_ref ref
  | V_status ConnectionStatus
  | V_messages "Message list"
  | V_attachments "Attachment list"

definition returning :: "val \<Rightarrow> error + world \<Rightarrow> error + val \<times> world" where
  "returning v x = and_then x (\<lambda>w. Inr (v, w))"

fun SessionHandler_op :: "ref \<Rightarrow> facade_op \<Rightarrow> world \<Rightarrow> error + val \<times> world" where
  "SessionHandler_op this Connect w = returning V_undefined (SessionHandler_connect this w)"
| "SessionHandler_op this Disconnect w = returning V_undefined (SessionHandler_disconnect this w)"
| "SessionHandler_op this (SendMessage m) w =
     returning V_undefined (SessionHandler_sendMessage this m w)"
| "SessionHandler_op this (SendAttachment a) w =
     returning V_undefined (SessionHandler_sendAttachment this a w)"
| "SessionHandler_op this GetMessages w =
     and_then (SessionHandler_getMessages this w) (\<lambda>(ms, w'). Inr (V_messages ms, w'))"
| "SessionHandler_op this GetAttachments w =
     and_then (SessionHandler_getAttachments this w) (\<lambda>(as, w'). Inr (V_attachments as, w'))"

fun KKTLiveChatSDK_op :: "ref \<Rightarrow> facade_op \<Rightarrow> world \<Rightarrow> error + val \<times> world" where
  "KKTLiveChatSDK_op this Connect w = returning V_undefined (KKTLiveChatSDK_connect this w)"
| "KKTLiveChatSDK_op this Disconnect w = returning V_undefined (KKTLiveChatSDK_disconnect this w)"
| "KKTLiveChatSDK_op this (SendMessage m) w =
     returning V_undefined (KKTLiveChatSDK_sendMessage this m w)"
| "KKTLiveChatSDK_op this (SendAttachment a) w =
     returning V_undefined (KKTLiveChatSDK_sendAttachment this a w)"
| "KKTLiveChatSDK_op this GetMessages w =
     and_then (KKTLiveChatSDK_getMessages this w)
       (\<lambda>(result, w'). Inr (case result of None \<Rightarrow> V_undefined | Some ms \<Rightarrow> V_messages ms, w'))"
| "KKTLiveChatSDK_op this GetAttachments w =
     and_then (KKTLiveChatSDK_getAttachments this w)
       (\<lambda>(result, w'). Inr (case result of None \<Rightarrow> V_undefined | Some as \<Rightarrow> V_attachments as, w'))"

fun exec :: "call \<Rightarrow> world \<Rightarrow> error + val \<times> world" where
  "exec Call_getInstance w = (let (r, w') = StateManager_getInstance w in Inr (V_ref r, w'))"
| "exec (Call_setConnectionStatus r s) w =
     returning V_undefined (StateManager_setConnectionStatus r s w)"
| "exec (Call_getConnectionStatus r) w =
     and_then (StateManager_getConnectionStatus r w) (\<lambda>s. Inr (V_status s, w))"
| "exec (Call_pushMessage r m) w = returning V_undefined (StateManager_pushMessage r m w)"
| "exec (Call_getMessages r) w =
     and_then (StateManager_getMessages r w) (\<lambda>ms. Inr (V_messages ms, w))"
| "exec (Call_pushAttachment r a) w =
     returning V_undefined (StateManager_pushAttachment r a w)"
| "exec (Call_getAttachments r) w =
     and_then (StateManager_getAttachments r w) (\<lambda>as. Inr (V_attachments as, w))"
| "exec New_SessionHandler w = (let (r, w') = SessionHandler_new w in Inr (V_ref r, w'))"
| "exec (On_SessionHandler r opn) w = SessionHandler_op r opn w"
| "exec New_KKTLiveChatSDK w = (let (r, w') = KKTLiveChatSDK_new w in Inr (V_ref r, w'))"
| "exec (On_KKTLiveChatSDK r opn) w = KKTLiveChatSDK_op r opn w"

text \<open>
  Running a program gives the values the calls returned, in order, and the final state; the
  first call that throws ends it.
\<close>

fun run :: "call list \<Rightarrow> world \<Rightarrow> error + val list \<times> world" where
  "run [] w = Inr ([], w)"
| "run (c # cs) w =
     and_then (exec c w) (\<lambda>(v, w').
       and_then (run cs w') (\<lambda>(vs, w''). Inr (v # vs, w'')))"

section \<open>Notions the claims are stated with\<close>

text \<open>
  The specification says that every method of a facade is one call on the shared
  \<^verbatim>\<open>StateManager\<close>. This is that call, for the facade operation and the reference \<open>sm\<close> the
  accessor returned; \<open>SessionHandler_op_delegate\<close> below compares it with the code.
\<close>

fun delegate :: "ref \<Rightarrow> facade_op \<Rightarrow> call" where
  "delegate sm Connect = Call_setConnectionStatus sm connecting"
| "delegate sm Disconnect = Call_setConnectionStatus sm disconnected"
| "delegate sm (SendMessage m) = Call_pushMessage sm m"
| "delegate sm (SendAttachment a) = Call_pushAttachment sm a"
| "delegate sm GetMessages = Call_getMessages sm"
| "delegate sm GetAttachments = Call_getAttachments sm"

text \<open>The calls on the two facade classes: their constructors and their methods.\<close>

fun facade_call :: "call \<Rightarrow> bool" where
  "facade_call New_SessionHandler = True"
| "facade_call (On_SessionHandler r opn) = True"
| "facade_call New_KKTLiveChatSDK = True"
| "facade_call (On_KKTLiveChatSDK r opn) = True"
| "facade_call c = False"

text \<open>
  A call is well-typed in a state when its receiver is an object of the class that has the
  method. The static accessor and the constructors have no receiver.
\<close>

fun receiver_ok :: "call \<Rightarrow> world \<Rightarrow> bool" where
  "receiver_ok Call_getInstance w = True"
| "receiver_ok (Call_setConnectionStatus r s) w = (StateManager_at w r \<noteq> None)"
| "receiver_ok (Call_getConnectionStatus r) w = (StateManager_at w r \<noteq> None)"
| "receiver_ok (Call_pushMessage r m) w = (StateManager_at w r \<noteq> None)"
| "receiver_ok (Call_getMessages r) w = (StateManager_at w r \<noteq> None)"
| "receiver_ok (Call_pushAttachment r a) w = (StateManager_at w r \<noteq> None)"
| "receiver_ok (Call_getAttachments r) w = (StateManager_at w r \<noteq> None)"
| "receiver_ok New_SessionHandler w = True"
| "receiver_ok (On_SessionHandler r opn) w = is_SessionHandler w r"
| "receiver_ok New_KKTLiveChatSDK w = True"
| "receiver_ok (On_KKTLiveChatSDK r opn) w = (KKTLiveChatSDK_at w r \<noteq> None)"

text \<open>
  The message a call hands to \<^verbatim>\<open>pushMessage\<close>: its own argument, or the argument of the
  \<^verbatim>\<open>sendMessage\<close> of a facade.
\<close>

fun pushed :: "call \<Rightarrow> Message list" where
  "pushed (Call_pushMessage r m) = [m]"
| "pushed (On_SessionHandler r (SendMessage m)) = [m]"
| "pushed (On_KKTLiveChatSDK r (SendMessage m)) = [m]"
| "pushed c = []"

section \<open>Invariants used in the proofs\<close>

text \<open>
  What holds of every state a client can reach (\<open>run_well_formed\<close> below): the only
  \<^verbatim>\<open>StateManager\<close> in the store is the one the static field refers to, the static field
  refers to a \<^verbatim>\<open>StateManager\<close>, and the field of every \<^verbatim>\<open>KKTLiveChatSDK\<close> refers to a
  \<^verbatim>\<open>SessionHandler\<close>.
\<close>

definition well_formed :: "world \<Rightarrow> bool" where
  "well_formed w \<longleftrightarrow>
     (\<forall>r sm. lookup w r = Some (StateManager_obj sm) \<longrightarrow> StateManager_instance w = Some r) \<and>
     (\<forall>r. StateManager_instance w = Some r \<longrightarrow> (\<exists>sm. lookup w r = Some (StateManager_obj sm))) \<and>
     (\<forall>r k. lookup w r = Some (KKTLiveChatSDK_obj k) \<longrightarrow>
        (\<exists>s. sessionHandler k = Some s \<and> lookup w s = Some SessionHandler_obj))"

text \<open>
  How a state relates to every later one (\<open>run_evolves\<close> below): the static field, once
  set, stays; objects stay and keep their class; a \<^verbatim>\<open>KKTLiveChatSDK\<close> keeps its field; the
  two sequences of a \<^verbatim>\<open>StateManager\<close> only grow at the end.
\<close>

definition evolves :: "world \<Rightarrow> world \<Rightarrow> bool" where
  "evolves w w' \<longleftrightarrow>
     (\<forall>r. StateManager_instance w = Some r \<longrightarrow> StateManager_instance w' = Some r) \<and>
     (\<forall>r. lookup w r = Some SessionHandler_obj \<longrightarrow> lookup w' r = Some SessionHandler_obj) \<and>
     (\<forall>r k. lookup w r = Some (KKTLiveChatSDK_obj k) \<longrightarrow>
        lookup w' r = Some (KKTLiveChatSDK_obj k)) \<and>
     (\<forall>r sm. lookup w r = Some (StateManager_obj sm) \<longrightarrow>
        (\<exists>sm' ms as. lookup w' r = Some (StateManager_obj sm') \<and>
           messages sm' = messages sm @ ms \<and> attachments sm' = attachments sm @ as))"

definition never_connected :: "world \<Rightarrow> bool" where
  "never_connected w \<longleftrightarrow>
     (\<forall>r sm. lookup w r = Some (StateManager_obj sm) \<longrightarrow> connectionStatus sm \<noteq> connected)"

text \<open>The messages of the shared instance; none while there is no instance.\<close>

definition held_messages :: "world \<Rightarrow> Message list" where
  "held_messages w =
     (case StateManager_instance w of
        None \<Rightarrow> []
      | Some r \<Rightarrow> (case StateManager_at w r of None \<Rightarrow> [] | Some sm \<Rightarrow> messages sm))"

section \<open>Lemmas about the store and the methods\<close>

lemma fst_alloc [simp]: "fst (alloc x w) = length (heap w)"
  by (simp add: alloc_def)

lemma lookup_alloc [simp]:
  "lookup (snd (alloc x w)) r = (if r = length (heap w) then Some x else lookup w r)"
  by (simp add: alloc_def lookup_def nth_append)

lemma lookup_store [simp]:
  "lookup (store r x w) r' = (if r' = r \<and> r < length (heap w) then Some x else lookup w r')"
  by (auto simp add: store_def lookup_def)

lemma lookup_console_log [simp]: "lookup (console_log a w) r = lookup w r"
  by (simp add: console_log_def lookup_def)

lemma lookup_instance_update [simp]:
  "lookup (w\<lparr>StateManager_instance := i\<rparr>) r = lookup w r"
  by (simp add: lookup_def)

lemma lookup_Some_less: "lookup w r = Some x \<Longrightarrow> r < length (heap w)"
  by (simp add: lookup_def split: if_splits)

lemma lookup_length [simp]: "lookup w (length (heap w)) = None"
  by (simp add: lookup_def)

lemma instance_alloc [simp]: "StateManager_instance (snd (alloc x w)) = StateManager_instance w"
  by (simp add: alloc_def)

lemma instance_store [simp]: "StateManager_instance (store r x w) = StateManager_instance w"
  by (simp add: store_def)

lemma instance_console_log [simp]: "StateManager_instance (console_log a w) = StateManager_instance w"
  by (simp add: console_log_def)

lemma length_heap_alloc [simp]: "length (heap (snd (alloc x w))) = Suc (length (heap w))"
  by (simp add: alloc_def)

lemma length_heap_store [simp]: "length (heap (store r x w)) = length (heap w)"
  by (simp add: store_def)

lemma length_heap_console_log [simp]: "length (heap (console_log a w)) = length (heap w)"
  by (simp add: console_log_def)


lemma wf_init: "well_formed init_world"
  by (simp add: well_formed_def init_world_def lookup_def)

lemma lookup_Some_neq: "lookup w r = Some x \<Longrightarrow> r \<noteq> length (heap w)"
  by (simp add: lookup_def split: if_splits)

lemma well_formedI:
  assumes "\<And>r sm. lookup w r = Some (StateManager_obj sm) \<Longrightarrow> StateManager_instance w = Some r"
    and "\<And>r. StateManager_instance w = Some r \<Longrightarrow> \<exists>sm. lookup w r = Some (StateManager_obj sm)"
    and "\<And>r k. lookup w r = Some (KKTLiveChatSDK_obj k) \<Longrightarrow>
           \<exists>s. sessionHandler k = Some s \<and> lookup w s = Some SessionHandler_obj"
  shows "well_formed w"
  using assms unfolding well_formed_def by blast

lemma wf_only:
  "well_formed w \<Longrightarrow> lookup w r = Some (StateManager_obj sm) \<Longrightarrow> StateManager_instance w = Some r"
  unfolding well_formed_def by blast

lemma wf_instance:
  "well_formed w \<Longrightarrow> StateManager_instance w = Some r \<Longrightarrow> \<exists>sm. lookup w r = Some (StateManager_obj sm)"
  unfolding well_formed_def by blast

lemma wf_sessionHandler:
  "well_formed w \<Longrightarrow> lookup w r = Some (KKTLiveChatSDK_obj k) \<Longrightarrow>
   \<exists>s. sessionHandler k = Some s \<and> lookup w s = Some SessionHandler_obj"
  unfolding well_formed_def by blast

lemma wf_console_log [simp]: "well_formed (console_log a w) = well_formed w"
  by (simp add: well_formed_def)

lemma wf_alloc_SessionHandler:
  assumes "well_formed w"
  shows "well_formed (snd (alloc SessionHandler_obj w))"
proof (rule well_formedI)
  fix r sm
  assume "lookup (snd (alloc SessionHandler_obj w)) r = Some (StateManager_obj sm)"
  then have "lookup w r = Some (StateManager_obj sm)"
    by (simp split: if_splits)
  then have "StateManager_instance w = Some r" by (rule wf_only[OF assms])
  then show "StateManager_instance (snd (alloc SessionHandler_obj w)) = Some r"
    by simp
next
  fix r
  assume "StateManager_instance (snd (alloc SessionHandler_obj w)) = Some r"
  then have "StateManager_instance w = Some r" by simp
  then obtain sm where sm: "lookup w r = Some (StateManager_obj sm)"
    using wf_instance[OF assms] by blast
  then have "r \<noteq> length (heap w)" by (rule lookup_Some_neq)
  with sm show "\<exists>sm. lookup (snd (alloc SessionHandler_obj w)) r = Some (StateManager_obj sm)"
    by simp
next
  fix r k
  assume "lookup (snd (alloc SessionHandler_obj w)) r = Some (KKTLiveChatSDK_obj k)"
  then have "lookup w r = Some (KKTLiveChatSDK_obj k)"
    by (simp split: if_splits)
  then obtain s where s: "sessionHandler k = Some s" "lookup w s = Some SessionHandler_obj"
    using wf_sessionHandler[OF assms] by blast
  then have "s \<noteq> length (heap w)" by (auto dest: lookup_Some_neq)
  with s show "\<exists>s. sessionHandler k = Some s \<and> lookup (snd (alloc SessionHandler_obj w)) s = Some SessionHandler_obj"
    by simp
qed

lemma wf_store_StateManager:
  assumes "well_formed w" "lookup w r = Some (StateManager_obj sm)"
  shows "well_formed (store r (StateManager_obj sm') w)"
proof (rule well_formedI)
  fix r' sm''
  assume a: "lookup (store r (StateManager_obj sm') w) r' = Some (StateManager_obj sm'')"
  have "StateManager_instance w = Some r'"
  proof (cases "r' = r")
    case True
    then show ?thesis using wf_only[OF assms] by simp
  next
    case False
    with a have "lookup w r' = Some (StateManager_obj sm'')" by simp
    then show ?thesis by (rule wf_only[OF assms(1)])
  qed
  then show "StateManager_instance (store r (StateManager_obj sm') w) = Some r'"
    by simp
next
  fix r'
  assume "StateManager_instance (store r (StateManager_obj sm') w) = Some r'"
  then have "StateManager_instance w = Some r'" by simp
  then obtain sm1 where "lookup w r' = Some (StateManager_obj sm1)"
    using wf_instance[OF assms(1)] by blast
  then show "\<exists>sm. lookup (store r (StateManager_obj sm') w) r' = Some (StateManager_obj sm)"
    by simp
next
  fix r' k
  assume "lookup (store r (StateManager_obj sm') w) r' = Some (KKTLiveChatSDK_obj k)"
  then have "lookup w r' = Some (KKTLiveChatSDK_obj k)"
    by (simp split: if_splits)
  then obtain s where s: "sessionHandler k = Some s" "lookup w s = Some SessionHandler_obj"
    using wf_sessionHandler[OF assms(1)] by blast
  with assms(2) have "s \<noteq> r" by auto
  with s show "\<exists>s. sessionHandler k = Some s \<and> lookup (store r (StateManager_obj sm') w) s = Some SessionHandler_obj"
    by simp
qed

lemma wf_new_StateManager:
  assumes "well_formed w" "StateManager_instance w = None"
  shows "well_formed ((snd (alloc (StateManager_obj sm) w))\<lparr>StateManager_instance := Some (length (heap w))\<rparr>)"
    (is "well_formed ?w")
proof (rule well_formedI)
  fix r sm'
  assume a: "lookup ?w r = Some (StateManager_obj sm')"
  have "r = length (heap w)"
  proof (rule ccontr)
    assume "r \<noteq> length (heap w)"
    with a have "lookup w r = Some (StateManager_obj sm')" by simp
    then have "StateManager_instance w = Some r" by (rule wf_only[OF assms(1)])
    with assms(2) show False by simp
  qed
  then show "StateManager_instance ?w = Some r"
    by simp
next
  fix r
  assume "StateManager_instance ?w = Some r"
  then show "\<exists>sm. lookup ?w r = Some (StateManager_obj sm)"
    by auto
next
  fix r k
  assume "lookup ?w r = Some (KKTLiveChatSDK_obj k)"
  then have "lookup w r = Some (KKTLiveChatSDK_obj k)"
    by (simp split: if_splits)
  then obtain s where s: "sessionHandler k = Some s" "lookup w s = Some SessionHandler_obj"
    using wf_sessionHandler[OF assms(1)] by blast
  then have "s \<noteq> length (heap w)" by (auto dest: lookup_Some_neq)
  with s show "\<exists>s. sessionHandler k = Some s \<and> lookup ?w s = Some SessionHandler_obj"
    by simp
qed

lemma getInstance_Some: "StateManager_instance w = Some r \<Longrightarrow> StateManager_getInstance w = (r, w)"
  by (simp add: StateManager_getInstance_def)

lemma getInstance_None:
  "StateManager_instance w = None \<Longrightarrow>
   StateManager_getInstance w =
     (length (heap w),
      (snd (alloc (StateManager_obj \<lparr>connectionStatus = disconnected, messages = [], attachments = []\<rparr>) w))
        \<lparr>StateManager_instance := Some (length (heap w))\<rparr>)"
  by (simp add: StateManager_getInstance_def StateManager_new_def case_prod_beta)

lemma getInstance_instance: "StateManager_getInstance w = (r, w1) \<Longrightarrow> StateManager_instance w1 = Some r"
  by (cases "StateManager_instance w") (auto simp: getInstance_None getInstance_Some)

lemma getInstance_wf:
  assumes "well_formed w" "StateManager_getInstance w = (r, w1)"
  shows "well_formed w1"
proof (cases "StateManager_instance w")
  case None
  with assms(2) wf_new_StateManager[OF assms(1) None] show ?thesis
    by (auto simp add: getInstance_None)
next
  case (Some a)
  then show ?thesis using assms by (simp add: getInstance_Some)
qed

lemma KKTLiveChatSDK_new_eq:
  "KKTLiveChatSDK_new w = (length (heap w),
     store (length (heap w)) (KKTLiveChatSDK_obj \<lparr>sessionHandler = Some (Suc (length (heap w)))\<rparr>)
      (console_log [Text ''SessionHandler constructor'']
        (snd (alloc SessionHandler_obj (console_log [Text ''KKTLiveChatSDK constructor'']
           (snd (alloc (KKTLiveChatSDK_obj \<lparr>sessionHandler = None\<rparr>) w)))))))"
  by (simp add: KKTLiveChatSDK_new_def SessionHandler_new_def case_prod_beta Let_def)

lemma lookup_KKTLiveChatSDK_new:
  "lookup (snd (KKTLiveChatSDK_new w)) r =
     (if r = length (heap w) then Some (KKTLiveChatSDK_obj \<lparr>sessionHandler = Some (Suc (length (heap w)))\<rparr>)
      else if r = Suc (length (heap w)) then Some SessionHandler_obj
      else lookup w r)"
  by (simp add: KKTLiveChatSDK_new_eq)

lemma instance_KKTLiveChatSDK_new:
  "StateManager_instance (snd (KKTLiveChatSDK_new w)) = StateManager_instance w"
  by (simp add: KKTLiveChatSDK_new_eq)

lemma wf_KKTLiveChatSDK_new:
  assumes "well_formed w"
  shows "well_formed (snd (KKTLiveChatSDK_new w))" (is "well_formed ?w")
proof (rule well_formedI)
  fix r sm'
  assume "lookup ?w r = Some (StateManager_obj sm')"
  then have "lookup w r = Some (StateManager_obj sm')"
    by (simp add: lookup_KKTLiveChatSDK_new split: if_splits)
  then have "StateManager_instance w = Some r" by (rule wf_only[OF assms(1)])
  then show "StateManager_instance ?w = Some r"
    by (simp add: instance_KKTLiveChatSDK_new)
next
  fix r
  assume "StateManager_instance ?w = Some r"
  then have "StateManager_instance w = Some r" by (simp add: instance_KKTLiveChatSDK_new)
  then obtain sm where sm: "lookup w r = Some (StateManager_obj sm)"
    using wf_instance[OF assms(1)] by blast
  then have "r < length (heap w)" by (rule lookup_Some_less)
  with sm show "\<exists>sm. lookup ?w r = Some (StateManager_obj sm)"
    by (simp add: lookup_KKTLiveChatSDK_new)
next
  fix r k
  assume a: "lookup ?w r = Some (KKTLiveChatSDK_obj k)"
  show "\<exists>s. sessionHandler k = Some s \<and> lookup ?w s = Some SessionHandler_obj"
  proof (cases "r = length (heap w)")
    case True
    with a have "sessionHandler k = Some (Suc (length (heap w)))"
      by (auto simp: lookup_KKTLiveChatSDK_new)
    moreover have "lookup ?w (Suc (length (heap w))) = Some SessionHandler_obj"
      by (simp add: lookup_KKTLiveChatSDK_new)
    ultimately show ?thesis by simp
  next
    case False
    with a have "lookup w r = Some (KKTLiveChatSDK_obj k)"
      by (simp add: lookup_KKTLiveChatSDK_new split: if_splits)
    then obtain s where s: "sessionHandler k = Some s" "lookup w s = Some SessionHandler_obj"
      using wf_sessionHandler[OF assms(1)] by blast
    then have "s < length (heap w)" by (auto dest: lookup_Some_less)
    with s show ?thesis by (simp add: lookup_KKTLiveChatSDK_new)
  qed
qed

lemma console_alloc [simp]: "console (snd (alloc x w)) = console w"
  by (simp add: alloc_def)

lemma console_store [simp]: "console (store r x w) = console w"
  by (simp add: store_def)

lemma console_console_log [simp]: "console (console_log a w) = console w @ [a]"
  by (simp add: console_log_def)

lemma StateManager_at_Some:
  "StateManager_at w r = Some sm \<longleftrightarrow> lookup w r = Some (StateManager_obj sm)"
  by (auto simp: StateManager_at_def split: option.splits obj.splits)

lemma StateManager_at_None:
  "StateManager_at w r = None \<longleftrightarrow> (\<forall>sm. lookup w r \<noteq> Some (StateManager_obj sm))"
  by (auto simp: StateManager_at_def split: option.splits obj.splits)

lemma KKTLiveChatSDK_at_Some:
  "KKTLiveChatSDK_at w r = Some k \<longleftrightarrow> lookup w r = Some (KKTLiveChatSDK_obj k)"
  by (auto simp: KKTLiveChatSDK_at_def split: option.splits obj.splits)

lemma setConnectionStatus_eq:
  "lookup w r = Some (StateManager_obj sm) \<Longrightarrow>
   StateManager_setConnectionStatus r s w =
     Inr (store r (StateManager_obj (sm\<lparr>connectionStatus := s\<rparr>)) w)"
  by (simp add: StateManager_setConnectionStatus_def StateManager_at_def)

lemma getConnectionStatus_eq:
  "lookup w r = Some (StateManager_obj sm) \<Longrightarrow>
   StateManager_getConnectionStatus r w = Inr (connectionStatus sm)"
  by (simp add: StateManager_getConnectionStatus_def StateManager_at_def)

lemma pushMessage_eq:
  "lookup w r = Some (StateManager_obj sm) \<Longrightarrow>
   StateManager_pushMessage r m w =
     Inr (store r (StateManager_obj (sm\<lparr>messages := messages sm @ [m]\<rparr>))
            (console_log [Text ''Pushing message:'', Logged m] w))"
  by (simp add: StateManager_pushMessage_def StateManager_at_def)

lemma getMessages_eq:
  "lookup w r = Some (StateManager_obj sm) \<Longrightarrow> StateManager_getMessages r w = Inr (messages sm)"
  by (simp add: StateManager_getMessages_def StateManager_at_def)

lemma pushAttachment_eq:
  "lookup w r = Some (StateManager_obj sm) \<Longrightarrow>
   StateManager_pushAttachment r a w =
     Inr (store r (StateManager_obj (sm\<lparr>attachments := attachments sm @ [a]\<rparr>)) w)"
  by (simp add: StateManager_pushAttachment_def StateManager_at_def)

lemma getAttachments_eq:
  "lookup w r = Some (StateManager_obj sm) \<Longrightarrow>
   StateManager_getAttachments r w = Inr (attachments sm)"
  by (simp add: StateManager_getAttachments_def StateManager_at_def)

lemma receiver_cases:
  obtains (StateManager) sm where "lookup w r = Some (StateManager_obj sm)"
  | (other) "StateManager_at w r = None"
  by (cases "StateManager_at w r") (auto simp: StateManager_at_Some)

lemma setConnectionStatus_Inr:
  assumes "StateManager_setConnectionStatus r s w = Inr w'"
  obtains sm where "lookup w r = Some (StateManager_obj sm)"
    and "w' = store r (StateManager_obj (sm\<lparr>connectionStatus := s\<rparr>)) w"
  using assms by (cases "StateManager_at w r") (auto simp: StateManager_setConnectionStatus_def StateManager_at_Some)

lemma pushMessage_Inr:
  assumes "StateManager_pushMessage r m w = Inr w'"
  obtains sm where "lookup w r = Some (StateManager_obj sm)"
    and "w' = store r (StateManager_obj (sm\<lparr>messages := messages sm @ [m]\<rparr>))
            (console_log [Text ''Pushing message:'', Logged m] w)"
  using assms by (cases "StateManager_at w r") (auto simp: StateManager_pushMessage_def StateManager_at_Some)

lemma pushAttachment_Inr:
  assumes "StateManager_pushAttachment r a w = Inr w'"
  obtains sm where "lookup w r = Some (StateManager_obj sm)"
    and "w' = store r (StateManager_obj (sm\<lparr>attachments := attachments sm @ [a]\<rparr>)) w"
  using assms by (cases "StateManager_at w r") (auto simp: StateManager_pushAttachment_def StateManager_at_Some)

lemma getConnectionStatus_Inr:
  assumes "StateManager_getConnectionStatus r w = Inr s"
  obtains sm where "lookup w r = Some (StateManager_obj sm)" and "s = connectionStatus sm"
  using assms by (cases "StateManager_at w r") (auto simp: StateManager_getConnectionStatus_def StateManager_at_Some)

lemma getMessages_Inr:
  assumes "StateManager_getMessages r w = Inr ms"
  obtains sm where "lookup w r = Some (StateManager_obj sm)" and "ms = messages sm"
  using assms by (cases "StateManager_at w r") (auto simp: StateManager_getMessages_def StateManager_at_Some)

lemma getAttachments_Inr:
  assumes "StateManager_getAttachments r w = Inr as"
  obtains sm where "lookup w r = Some (StateManager_obj sm)" and "as = attachments sm"
  using assms by (cases "StateManager_at w r") (auto simp: StateManager_getAttachments_def StateManager_at_Some)

lemma and_then_Inr: "and_then x f = Inr y \<longleftrightarrow> (\<exists>a. x = Inr a \<and> f a = Inr y)"
  by (cases x) (simp_all add: and_then_def)

lemma and_then_Inr_simp [simp]: "and_then (Inr a) f = f a"
  by (simp add: and_then_def)

lemma and_then_Inl_simp [simp]: "and_then (Inl e) f = Inl e"
  by (simp add: and_then_def)

lemma returning_Inr: "returning v x = Inr (v', w') \<longleftrightarrow> v' = v \<and> x = Inr w'"
  by (cases x) (auto simp add: returning_def)

lemma SessionHandler_new_eq:
  "SessionHandler_new w =
     (length (heap w), console_log [Text ''SessionHandler constructor''] (snd (alloc SessionHandler_obj w)))"
  by (simp add: SessionHandler_new_def case_prod_beta)

lemma SessionHandler_op_delegate:
  "is_SessionHandler w this \<Longrightarrow>
   SessionHandler_op this opn w =
     exec (delegate (fst (StateManager_getInstance w)) opn) (snd (StateManager_getInstance w))"
  by (cases opn)
    (simp_all add: SessionHandler_connect_def SessionHandler_disconnect_def
      SessionHandler_sendMessage_def SessionHandler_sendAttachment_def
      SessionHandler_getMessages_def SessionHandler_getAttachments_def case_prod_beta
      returning_def and_then_def split: sum.splits)

lemma SessionHandler_op_TypeError:
  "\<not> is_SessionHandler w this \<Longrightarrow> SessionHandler_op this opn w = Inl TypeError"
  by (cases opn)
    (simp_all add: SessionHandler_connect_def SessionHandler_disconnect_def
      SessionHandler_sendMessage_def SessionHandler_sendAttachment_def
      SessionHandler_getMessages_def SessionHandler_getAttachments_def returning_def)

lemma KKTLiveChatSDK_op_delegate:
  "lookup w this = Some (KKTLiveChatSDK_obj k) \<Longrightarrow> sessionHandler k = Some sh \<Longrightarrow>
   KKTLiveChatSDK_op this opn w = SessionHandler_op sh opn w"
  by (cases opn)
    (simp_all add: KKTLiveChatSDK_connect_def KKTLiveChatSDK_disconnect_def
      KKTLiveChatSDK_sendMessage_def KKTLiveChatSDK_sendAttachment_def
      KKTLiveChatSDK_getMessages_def KKTLiveChatSDK_getAttachments_def KKTLiveChatSDK_at_def
      case_prod_beta and_then_def split: sum.splits)

lemma KKTLiveChatSDK_op_undefined:
  "lookup w this = Some (KKTLiveChatSDK_obj k) \<Longrightarrow> sessionHandler k = None \<Longrightarrow>
   KKTLiveChatSDK_op this opn w = Inr (V_undefined, w)"
  by (cases opn)
    (simp_all add: KKTLiveChatSDK_connect_def KKTLiveChatSDK_disconnect_def
      KKTLiveChatSDK_sendMessage_def KKTLiveChatSDK_sendAttachment_def
      KKTLiveChatSDK_getMessages_def KKTLiveChatSDK_getAttachments_def KKTLiveChatSDK_at_def
      returning_def)

lemma KKTLiveChatSDK_op_TypeError:
  "KKTLiveChatSDK_at w this = None \<Longrightarrow> KKTLiveChatSDK_op this opn w = Inl TypeError"
  by (cases opn)
    (simp_all add: KKTLiveChatSDK_connect_def KKTLiveChatSDK_disconnect_def
      KKTLiveChatSDK_sendMessage_def KKTLiveChatSDK_sendAttachment_def
      KKTLiveChatSDK_getMessages_def KKTLiveChatSDK_getAttachments_def 
      returning_def)

lemma exec_StateManager_call:
  assumes "exec (delegate sm opn) w = Inr (v, w')" and "P w"
    and set: "\<And>s. s \<noteq> connected \<Longrightarrow> StateManager_setConnectionStatus sm s w = Inr w' \<Longrightarrow> P w'"
    and pushM: "\<And>m. StateManager_pushMessage sm m w = Inr w' \<Longrightarrow> P w'"
    and pushA: "\<And>a. StateManager_pushAttachment sm a w = Inr w' \<Longrightarrow> P w'"
  shows "P w'"
proof (cases opn)
  case Connect
  with assms(1) have "StateManager_setConnectionStatus sm connecting w = Inr w'"
    by (simp add: returning_Inr)
  then show ?thesis by (rule set[rotated]) simp
next
  case Disconnect
  with assms(1) have "StateManager_setConnectionStatus sm disconnected w = Inr w'"
    by (simp add: returning_Inr)
  then show ?thesis by (rule set[rotated]) simp
next
  case (SendMessage m)
  with assms(1) have "StateManager_pushMessage sm m w = Inr w'"
    by (simp add: returning_Inr)
  then show ?thesis by (rule pushM)
next
  case (SendAttachment a)
  with assms(1) have "StateManager_pushAttachment sm a w = Inr w'"
    by (simp add: returning_Inr)
  then show ?thesis by (rule pushA)
next
  case GetMessages
  with assms(1) have "w' = w" by (auto simp: and_then_Inr)
  with assms(2) show ?thesis by simp
next
  case GetAttachments
  with assms(1) have "w' = w" by (auto simp: and_then_Inr)
  with assms(2) show ?thesis by simp
qed

lemma SessionHandler_op_preserves:
  assumes "SessionHandler_op this opn w = Inr (v, w')" and "P w"
    and getI: "\<And>w. P w \<Longrightarrow> P (snd (StateManager_getInstance w))"
    and set: "\<And>w r s w'. P w \<Longrightarrow> StateManager_instance w = Some r \<Longrightarrow> s \<noteq> connected \<Longrightarrow>
               StateManager_setConnectionStatus r s w = Inr w' \<Longrightarrow> P w'"
    and pushM: "\<And>w r m w'. P w \<Longrightarrow> StateManager_pushMessage r m w = Inr w' \<Longrightarrow> P w'"
    and pushA: "\<And>w r a w'. P w \<Longrightarrow> StateManager_pushAttachment r a w = Inr w' \<Longrightarrow> P w'"
  shows "P w'"
proof -
  let ?sm = "fst (StateManager_getInstance w)" and ?w1 = "snd (StateManager_getInstance w)"
  have sh: "is_SessionHandler w this"
    using assms(1) SessionHandler_op_TypeError[of w this opn] by auto
  then have e: "exec (delegate ?sm opn) ?w1 = Inr (v, w')"
    using assms(1) by (simp add: SessionHandler_op_delegate)
  have P1: "P ?w1" using assms(2) by (rule getI)
  have i1: "StateManager_instance ?w1 = Some ?sm"
    by (rule getInstance_instance) simp
  show ?thesis
    using e P1
  proof (rule exec_StateManager_call)
    fix s assume "s \<noteq> connected" "StateManager_setConnectionStatus ?sm s ?w1 = Inr w'"
    with P1 i1 show "P w'" by (rule set)
  next
    fix m assume "StateManager_pushMessage ?sm m ?w1 = Inr w'"
    with P1 show "P w'" by (rule pushM)
  next
    fix a assume "StateManager_pushAttachment ?sm a ?w1 = Inr w'"
    with P1 show "P w'" by (rule pushA)
  qed
qed

lemma KKTLiveChatSDK_op_preserves:
  assumes "KKTLiveChatSDK_op this opn w = Inr (v, w')" and "P w"
    and getI: "\<And>w. P w \<Longrightarrow> P (snd (StateManager_getInstance w))"
    and set: "\<And>w r s w'. P w \<Longrightarrow> StateManager_instance w = Some r \<Longrightarrow> s \<noteq> connected \<Longrightarrow>
               StateManager_setConnectionStatus r s w = Inr w' \<Longrightarrow> P w'"
    and pushM: "\<And>w r m w'. P w \<Longrightarrow> StateManager_pushMessage r m w = Inr w' \<Longrightarrow> P w'"
    and pushA: "\<And>w r a w'. P w \<Longrightarrow> StateManager_pushAttachment r a w = Inr w' \<Longrightarrow> P w'"
  shows "P w'"
proof (cases "KKTLiveChatSDK_at w this")
  case None
  then show ?thesis using assms(1) by (simp add: KKTLiveChatSDK_op_TypeError)
next
  case (Some k)
  then have l: "lookup w this = Some (KKTLiveChatSDK_obj k)"
    by (simp add: KKTLiveChatSDK_at_Some)
  show ?thesis
  proof (cases "sessionHandler k")
    case None
    with l assms(1) have "w' = w" by (simp add: KKTLiveChatSDK_op_undefined)
    with assms(2) show ?thesis by simp
  next
    case (Some sh)
    with l assms(1) have e: "SessionHandler_op sh opn w = Inr (v, w')"
      by (simp add: KKTLiveChatSDK_op_delegate)
    show ?thesis
      by (rule SessionHandler_op_preserves[where P = P, OF e assms(2)])
        (erule getI, erule set, assumption+, erule pushM, assumption, erule pushA, assumption)
  qed
qed

lemma exec_preserves:
  assumes "exec c w = Inr (v, w')" and "P w"
    and getI: "\<And>w. P w \<Longrightarrow> P (snd (StateManager_getInstance w))"
    and set: "\<And>w r s w'. P w \<Longrightarrow> StateManager_setConnectionStatus r s w = Inr w' \<Longrightarrow>
               facade_call c \<longrightarrow> StateManager_instance w = Some r \<and> s \<noteq> connected \<Longrightarrow> P w'"
    and pushM: "\<And>w r m w'. P w \<Longrightarrow> StateManager_pushMessage r m w = Inr w' \<Longrightarrow> P w'"
    and pushA: "\<And>w r a w'. P w \<Longrightarrow> StateManager_pushAttachment r a w = Inr w' \<Longrightarrow> P w'"
    and newS: "\<And>w. P w \<Longrightarrow> P (snd (SessionHandler_new w))"
    and newK: "\<And>w. P w \<Longrightarrow> P (snd (KKTLiveChatSDK_new w))"
  shows "P w'"
proof (cases c)
  case Call_getInstance
  with assms(1) have "w' = snd (StateManager_getInstance w)"
    by (auto simp: case_prod_beta)
  with getI[OF assms(2)] show ?thesis by simp
next
  case (Call_setConnectionStatus r s)
  with assms(1) have "StateManager_setConnectionStatus r s w = Inr w'"
    by (simp add: returning_Inr)
  with assms(2) show ?thesis by (rule set) (simp add: Call_setConnectionStatus)
next
  case (Call_getConnectionStatus r)
  with assms(1) have "w' = w" by (auto simp: and_then_Inr)
  with assms(2) show ?thesis by simp
next
  case (Call_pushMessage r m)
  with assms(1) have "StateManager_pushMessage r m w = Inr w'"
    by (simp add: returning_Inr)
  with assms(2) show ?thesis by (rule pushM)
next
  case (Call_getMessages r)
  with assms(1) have "w' = w" by (auto simp: and_then_Inr)
  with assms(2) show ?thesis by simp
next
  case (Call_pushAttachment r a)
  with assms(1) have "StateManager_pushAttachment r a w = Inr w'"
    by (simp add: returning_Inr)
  with assms(2) show ?thesis by (rule pushA)
next
  case (Call_getAttachments r)
  with assms(1) have "w' = w" by (auto simp: and_then_Inr)
  with assms(2) show ?thesis by simp
next
  case New_SessionHandler
  with assms(1) have "w' = snd (SessionHandler_new w)"
    by (auto simp: case_prod_beta)
  with newS[OF assms(2)] show ?thesis by simp
next
  case (On_SessionHandler r opn)
  with assms(1) have e: "SessionHandler_op r opn w = Inr (v, w')" by simp
  show ?thesis
  proof (rule SessionHandler_op_preserves[where P = P, OF e assms(2)])
    fix w r s w'
    assume "P w" "StateManager_instance w = Some r" "s \<noteq> connected"
      "StateManager_setConnectionStatus r s w = Inr w'"
    then show "P w'" using set by blast
  qed (erule getI, erule pushM, assumption, erule pushA, assumption)
next
  case New_KKTLiveChatSDK
  with assms(1) have "w' = snd (KKTLiveChatSDK_new w)"
    by (auto simp: case_prod_beta)
  with newK[OF assms(2)] show ?thesis by simp
next
  case (On_KKTLiveChatSDK r opn)
  with assms(1) have e: "KKTLiveChatSDK_op r opn w = Inr (v, w')" by simp
  show ?thesis
  proof (rule KKTLiveChatSDK_op_preserves[where P = P, OF e assms(2)])
    fix w r s w'
    assume "P w" "StateManager_instance w = Some r" "s \<noteq> connected"
      "StateManager_setConnectionStatus r s w = Inr w'"
    then show "P w'" using set by blast
  qed (erule getI, erule pushM, assumption, erule pushA, assumption)
qed

lemma run_Nil_Inr: "run [] w = Inr (vs, w') \<longleftrightarrow> vs = [] \<and> w' = w"
  by auto

lemma run_Cons_Inr:
  "run (c # cs) w = Inr (vs, w') \<longleftrightarrow>
     (\<exists>v w1 vs'. exec c w = Inr (v, w1) \<and> run cs w1 = Inr (vs', w') \<and> vs = v # vs')"
  by (auto simp: and_then_Inr)

lemma run_preserves:
  assumes "run cs w = Inr (vs, w')" and "P w"
    and step: "\<And>c w v w'. c \<in> set cs \<Longrightarrow> P w \<Longrightarrow> exec c w = Inr (v, w') \<Longrightarrow> P w'"
  shows "P w'"
  using assms
proof (induction cs arbitrary: w vs)
  case Nil
  then show ?case by simp
next
  case (Cons c cs)
  from Cons.prems(1) obtain v w1 vs' where
    e: "exec c w = Inr (v, w1)" and r: "run cs w1 = Inr (vs', w')"
    by (auto simp: run_Cons_Inr simp del: run.simps)
  have "P w1" using Cons.prems(2) e by (rule Cons.prems(3)[rotated]) simp
  with r show ?case
    by (rule Cons.IH) (rule Cons.prems(3), auto)
qed

lemma run_length: "run cs w = Inr (vs, w') \<Longrightarrow> length vs = length cs"
  by (induction cs arbitrary: w vs) (auto simp: run_Cons_Inr run_Nil_Inr simp del: run.simps)

lemma evolvesI:
  assumes "\<And>r. StateManager_instance w = Some r \<Longrightarrow> StateManager_instance w' = Some r"
    and "\<And>r. lookup w r = Some SessionHandler_obj \<Longrightarrow> lookup w' r = Some SessionHandler_obj"
    and "\<And>r k. lookup w r = Some (KKTLiveChatSDK_obj k) \<Longrightarrow>
           lookup w' r = Some (KKTLiveChatSDK_obj k)"
    and "\<And>r sm. lookup w r = Some (StateManager_obj sm) \<Longrightarrow>
           \<exists>sm' ms as. lookup w' r = Some (StateManager_obj sm') \<and>
             messages sm' = messages sm @ ms \<and> attachments sm' = attachments sm @ as"
  shows "evolves w w'"
  using assms unfolding evolves_def by blast

lemma evolves_instance:
  "evolves w w' \<Longrightarrow> StateManager_instance w = Some r \<Longrightarrow> StateManager_instance w' = Some r"
  unfolding evolves_def by blast

lemma evolves_SessionHandler:
  "evolves w w' \<Longrightarrow> lookup w r = Some SessionHandler_obj \<Longrightarrow> lookup w' r = Some SessionHandler_obj"
  unfolding evolves_def by blast

lemma evolves_KKTLiveChatSDK:
  "evolves w w' \<Longrightarrow> lookup w r = Some (KKTLiveChatSDK_obj k) \<Longrightarrow>
   lookup w' r = Some (KKTLiveChatSDK_obj k)"
  unfolding evolves_def by blast

lemma evolves_StateManager:
  assumes "evolves w w'" "lookup w r = Some (StateManager_obj sm)"
  obtains sm' ms as where "lookup w' r = Some (StateManager_obj sm')"
    "messages sm' = messages sm @ ms" "attachments sm' = attachments sm @ as"
  using assms unfolding evolves_def by blast

lemma evolves_refl: "evolves w w"
  by (rule evolvesI) auto

lemma evolves_trans:
  assumes "evolves w w1" "evolves w1 w2"
  shows "evolves w w2"
proof (rule evolvesI)
  fix r assume "StateManager_instance w = Some r"
  then show "StateManager_instance w2 = Some r"
    using assms by (blast dest: evolves_instance)
next
  fix r assume "lookup w r = Some SessionHandler_obj"
  then show "lookup w2 r = Some SessionHandler_obj"
    using assms by (blast dest: evolves_SessionHandler)
next
  fix r k assume "lookup w r = Some (KKTLiveChatSDK_obj k)"
  then show "lookup w2 r = Some (KKTLiveChatSDK_obj k)"
    using assms by (blast dest: evolves_KKTLiveChatSDK)
next
  fix r sm assume "lookup w r = Some (StateManager_obj sm)"
  with assms(1) obtain sm1 ms1 as1 where 1: "lookup w1 r = Some (StateManager_obj sm1)"
    "messages sm1 = messages sm @ ms1" "attachments sm1 = attachments sm @ as1"
    by (rule evolves_StateManager)
  from assms(2) 1(1) obtain sm2 ms2 as2 where 2: "lookup w2 r = Some (StateManager_obj sm2)"
    "messages sm2 = messages sm1 @ ms2" "attachments sm2 = attachments sm1 @ as2"
    by (rule evolves_StateManager)
  from 1 2 have "messages sm2 = messages sm @ (ms1 @ ms2)"
    "attachments sm2 = attachments sm @ (as1 @ as2)" by simp_all
  with 2(1) show "\<exists>sm' ms as. lookup w2 r = Some (StateManager_obj sm') \<and>
      messages sm' = messages sm @ ms \<and> attachments sm' = attachments sm @ as"
    by blast
qed

lemma lookup_alloc_old: "lookup w r = Some x \<Longrightarrow> lookup (snd (alloc y w)) r = Some x"
  by (frule lookup_Some_neq) simp

lemma evolves_alloc: "evolves w (snd (alloc x w))"
proof (rule evolvesI)
  fix r sm assume "lookup w r = Some (StateManager_obj sm)"
  then have "lookup (snd (alloc x w)) r = Some (StateManager_obj sm)"
    by (rule lookup_alloc_old)
  then show "\<exists>sm' ms as. lookup (snd (alloc x w)) r = Some (StateManager_obj sm') \<and>
      messages sm' = messages sm @ ms \<and> attachments sm' = attachments sm @ as"
    by simp
qed (auto dest: lookup_Some_neq)

lemma evolves_console_log: "evolves w (console_log a w)"
  by (rule evolvesI) simp_all

lemma evolves_instance_update:
  "StateManager_instance w = None \<Longrightarrow> evolves w (w\<lparr>StateManager_instance := i\<rparr>)"
  by (rule evolvesI) simp_all

lemma evolves_store:
  assumes "lookup w r = Some (StateManager_obj sm)"
    and "messages sm' = messages sm @ ms" and "attachments sm' = attachments sm @ as"
  shows "evolves w (store r (StateManager_obj sm') w)"
proof (rule evolvesI)
  fix r' assume "lookup w r' = Some SessionHandler_obj"
  with assms(1) show "lookup (store r (StateManager_obj sm') w) r' = Some SessionHandler_obj"
    by auto
next
  fix r' k assume "lookup w r' = Some (KKTLiveChatSDK_obj k)"
  with assms(1) show "lookup (store r (StateManager_obj sm') w) r' = Some (KKTLiveChatSDK_obj k)"
    by auto
next
  fix r' sm1 assume a: "lookup w r' = Some (StateManager_obj sm1)"
  show "\<exists>sm'' ms as. lookup (store r (StateManager_obj sm') w) r' = Some (StateManager_obj sm'') \<and>
      messages sm'' = messages sm1 @ ms \<and> attachments sm'' = attachments sm1 @ as"
  proof (cases "r' = r")
    case True
    with a assms(1) have "sm1 = sm" by simp
    moreover have "lookup (store r (StateManager_obj sm') w) r = Some (StateManager_obj sm')"
      using lookup_Some_less[OF assms(1)] by simp
    ultimately show ?thesis using assms(2,3) True by blast
  next
    case False
    with a have "lookup (store r (StateManager_obj sm') w) r' = Some (StateManager_obj sm1)"
      by simp
    then show ?thesis by simp
  qed
qed simp

lemma getInstance_evolves: "evolves w (snd (StateManager_getInstance w))"
proof (cases "StateManager_instance w")
  case None
  have "evolves w (snd (alloc (StateManager_obj \<lparr>connectionStatus = disconnected, messages = [], attachments = []\<rparr>) w))"
    (is "evolves w ?w1")
    by (rule evolves_alloc)
  moreover have "evolves ?w1 (?w1\<lparr>StateManager_instance := Some (length (heap w))\<rparr>)"
    by (rule evolves_instance_update) (simp add: None)
  ultimately show ?thesis
    by (simp add: getInstance_None[OF None]) (rule evolves_trans)
next
  case (Some r)
  then show ?thesis by (simp add: getInstance_Some evolves_refl)
qed

lemma setConnectionStatus_evolves:
  assumes "StateManager_setConnectionStatus r s w = Inr w'"
  shows "evolves w w'"
  using assms by (elim setConnectionStatus_Inr) (simp add: evolves_store[where ms = "[]" and as = "[]"])

lemma pushMessage_evolves:
  assumes "StateManager_pushMessage r m w = Inr w'"
  shows "evolves w w'"
proof -
  from assms obtain sm where l: "lookup w r = Some (StateManager_obj sm)"
    and w': "w' = store r (StateManager_obj (sm\<lparr>messages := messages sm @ [m]\<rparr>))
            (console_log [Text ''Pushing message:'', Logged m] w)"
    by (rule pushMessage_Inr)
  let ?w1 = "console_log [Text ''Pushing message:'', Logged m] w"
  have "evolves w ?w1" by (rule evolves_console_log)
  moreover have "evolves ?w1 w'"
    unfolding w' by (rule evolves_store[where ms = "[m]" and as = "[]"]) (simp_all add: l)
  ultimately show ?thesis by (rule evolves_trans)
qed

lemma pushAttachment_evolves:
  assumes "StateManager_pushAttachment r a w = Inr w'"
  shows "evolves w w'"
  using assms by (elim pushAttachment_Inr) (simp add: evolves_store[where ms = "[]" and as = "[a]"])

lemma SessionHandler_new_evolves: "evolves w (snd (SessionHandler_new w))"
  unfolding SessionHandler_new_eq snd_conv
  by (rule evolves_trans[OF evolves_alloc evolves_console_log])

lemma KKTLiveChatSDK_new_evolves: "evolves w (snd (KKTLiveChatSDK_new w))"
proof (rule evolvesI)
  fix r sm assume "lookup w r = Some (StateManager_obj sm)"
  then have "lookup (snd (KKTLiveChatSDK_new w)) r = Some (StateManager_obj sm)"
    by (frule_tac lookup_Some_less) (simp add: lookup_KKTLiveChatSDK_new)
  then show "\<exists>sm' ms as. lookup (snd (KKTLiveChatSDK_new w)) r = Some (StateManager_obj sm') \<and>
      messages sm' = messages sm @ ms \<and> attachments sm' = attachments sm @ as"
    by simp
next
  fix r assume "lookup w r = Some SessionHandler_obj"
  then show "lookup (snd (KKTLiveChatSDK_new w)) r = Some SessionHandler_obj"
    by (frule_tac lookup_Some_less) (simp add: lookup_KKTLiveChatSDK_new)
next
  fix r k assume "lookup w r = Some (KKTLiveChatSDK_obj k)"
  then show "lookup (snd (KKTLiveChatSDK_new w)) r = Some (KKTLiveChatSDK_obj k)"
    by (frule_tac lookup_Some_less) (simp add: lookup_KKTLiveChatSDK_new)
qed (simp add: instance_KKTLiveChatSDK_new)

lemma exec_evolves:
  assumes "exec c w = Inr (v, w')"
  shows "evolves w w'"
proof (rule exec_preserves[where P = "evolves w", OF assms evolves_refl])
  fix w1 assume "evolves w w1"
  then show "evolves w (snd (StateManager_getInstance w1))"
    using getInstance_evolves by (rule evolves_trans)
next
  fix w1 r s w2 assume "evolves w w1" "StateManager_setConnectionStatus r s w1 = Inr w2"
  then show "evolves w w2"
    by (blast intro: evolves_trans setConnectionStatus_evolves)
next
  fix w1 r m w2 assume "evolves w w1" "StateManager_pushMessage r m w1 = Inr w2"
  then show "evolves w w2"
    by (blast intro: evolves_trans pushMessage_evolves)
next
  fix w1 r a w2 assume "evolves w w1" "StateManager_pushAttachment r a w1 = Inr w2"
  then show "evolves w w2"
    by (blast intro: evolves_trans pushAttachment_evolves)
next
  fix w1 assume "evolves w w1"
  then show "evolves w (snd (SessionHandler_new w1))"
    using SessionHandler_new_evolves by (rule evolves_trans)
next
  fix w1 assume "evolves w w1"
  then show "evolves w (snd (KKTLiveChatSDK_new w1))"
    using KKTLiveChatSDK_new_evolves by (rule evolves_trans)
qed

lemma run_evolves:
  assumes "run cs w = Inr (vs, w')"
  shows "evolves w w'"
  by (rule run_preserves[where P = "evolves w", OF assms evolves_refl])
    (blast intro: evolves_trans exec_evolves)

lemma getInstance_wf_snd: "well_formed w \<Longrightarrow> well_formed (snd (StateManager_getInstance w))"
  by (rule getInstance_wf[where r = "fst (StateManager_getInstance w)"]) simp_all

lemma setConnectionStatus_wf:
  "well_formed w \<Longrightarrow> StateManager_setConnectionStatus r s w = Inr w' \<Longrightarrow> well_formed w'"
  by (erule setConnectionStatus_Inr) (simp add: wf_store_StateManager)

lemma pushMessage_wf:
  assumes "well_formed w" "StateManager_pushMessage r m w = Inr w'"
  shows "well_formed w'"
proof -
  from assms(2) obtain sm where l: "lookup w r = Some (StateManager_obj sm)"
    and w': "w' = store r (StateManager_obj (sm\<lparr>messages := messages sm @ [m]\<rparr>))
            (console_log [Text ''Pushing message:'', Logged m] w)"
    by (rule pushMessage_Inr)
  show ?thesis
    unfolding w' by (rule wf_store_StateManager[where sm = sm]) (simp_all add: assms(1) l)
qed

lemma pushAttachment_wf:
  "well_formed w \<Longrightarrow> StateManager_pushAttachment r a w = Inr w' \<Longrightarrow> well_formed w'"
  by (erule pushAttachment_Inr) (simp add: wf_store_StateManager)

lemma SessionHandler_new_wf: "well_formed w \<Longrightarrow> well_formed (snd (SessionHandler_new w))"
  by (simp add: SessionHandler_new_eq wf_alloc_SessionHandler)

lemma exec_wf:
  assumes "exec c w = Inr (v, w')" "well_formed w"
  shows "well_formed w'"
  by (rule exec_preserves[where P = well_formed, OF assms])
    (erule getInstance_wf_snd, erule setConnectionStatus_wf, assumption,
     erule pushMessage_wf, assumption, erule pushAttachment_wf, assumption,
     erule SessionHandler_new_wf, erule wf_KKTLiveChatSDK_new)

lemma run_wf:
  assumes "run cs w = Inr (vs, w')" "well_formed w"
  shows "well_formed w'"
  by (rule run_preserves[where P = well_formed, OF assms]) (rule exec_wf)

lemma run_well_formed: "run cs init_world = Inr (vs, w) \<Longrightarrow> well_formed w"
  by (erule run_wf) (rule wf_init)

lemma getInstance_StateManager:
  assumes "well_formed w"
  obtains sm where
    "lookup (snd (StateManager_getInstance w)) (fst (StateManager_getInstance w))
       = Some (StateManager_obj sm)"
proof -
  have "StateManager_instance (snd (StateManager_getInstance w))
      = Some (fst (StateManager_getInstance w))"
    by (rule getInstance_instance) simp
  with wf_instance[OF getInstance_wf_snd[OF assms]] that show ?thesis by blast
qed

lemma exec_delegate_ok:
  assumes "lookup w sm = Some (StateManager_obj x)"
  shows "\<exists>v w'. exec (delegate sm opn) w = Inr (v, w')"
  using assms
  by (cases opn)
    (simp_all add: setConnectionStatus_eq pushMessage_eq pushAttachment_eq getMessages_eq
      getAttachments_eq returning_def)

lemma SessionHandler_op_ok:
  assumes "well_formed w" "is_SessionHandler w this"
  shows "\<exists>v w'. SessionHandler_op this opn w = Inr (v, w')"
proof -
  from assms(1) obtain sm where
    "lookup (snd (StateManager_getInstance w)) (fst (StateManager_getInstance w))
       = Some (StateManager_obj sm)"
    by (rule getInstance_StateManager)
  then show ?thesis
    unfolding SessionHandler_op_delegate[OF assms(2)] by (rule exec_delegate_ok)
qed

lemma KKTLiveChatSDK_op_ok:
  assumes "well_formed w" "lookup w this = Some (KKTLiveChatSDK_obj k)"
  obtains sh v w' where "sessionHandler k = Some sh" "is_SessionHandler w sh"
    "KKTLiveChatSDK_op this opn w = SessionHandler_op sh opn w"
    "SessionHandler_op sh opn w = Inr (v, w')"
proof -
  from wf_sessionHandler[OF assms] obtain sh where
    sh: "sessionHandler k = Some sh" "is_SessionHandler w sh"
    by (auto simp: is_SessionHandler_def)
  from SessionHandler_op_ok[OF assms(1) sh(2)] obtain v w' where
    "SessionHandler_op sh opn w = Inr (v, w')" by blast
  with sh KKTLiveChatSDK_op_delegate[OF assms(2) sh(1)] that show ?thesis by blast
qed

lemma exec_ok:
  assumes "well_formed w" "receiver_ok c w"
  shows "\<exists>v w'. exec c w = Inr (v, w')"
proof (cases c)
  case (On_SessionHandler r opn)
  with assms show ?thesis by (simp add: SessionHandler_op_ok)
next
  case (On_KKTLiveChatSDK r opn)
  with assms(2) obtain k where "lookup w r = Some (KKTLiveChatSDK_obj k)"
    by (auto simp: KKTLiveChatSDK_at_Some)
  with assms(1) obtain sh v w' where
    "KKTLiveChatSDK_op r opn w = SessionHandler_op sh opn w"
    "SessionHandler_op sh opn w = Inr (v, w')"
    by (rule KKTLiveChatSDK_op_ok)
  then show ?thesis by (simp add: On_KKTLiveChatSDK)
qed (use assms(2) in \<open>auto simp: case_prod_beta StateManager_at_Some setConnectionStatus_eq
      getConnectionStatus_eq pushMessage_eq pushAttachment_eq getMessages_eq
      getAttachments_eq returning_def\<close>)

lemma never_connected_init: "never_connected init_world"
  by (simp add: never_connected_def init_world_def lookup_def)

lemma never_connected_getInstance:
  assumes "never_connected w"
  shows "never_connected (snd (StateManager_getInstance w))"
proof (cases "StateManager_instance w")
  case None
  with assms show ?thesis
    by (simp add: getInstance_None never_connected_def)
next
  case (Some r)
  with assms show ?thesis by (simp add: getInstance_Some)
qed

lemma never_connected_store:
  assumes "never_connected w" "connectionStatus sm \<noteq> connected"
  shows "never_connected (store r (StateManager_obj sm) w)"
  using assms by (simp add: never_connected_def)

lemma never_connected_console_log [simp]:
  "never_connected (console_log a w) = never_connected w"
  by (simp add: never_connected_def)

lemma never_connectedD:
  "never_connected w \<Longrightarrow> lookup w r = Some (StateManager_obj sm) \<Longrightarrow>
   connectionStatus sm \<noteq> connected"
  by (simp add: never_connected_def)

lemma never_connected_setConnectionStatus:
  assumes "never_connected w" "StateManager_setConnectionStatus r s w = Inr w'" "s \<noteq> connected"
  shows "never_connected w'"
  using assms(2) by (rule setConnectionStatus_Inr) (simp add: never_connected_store assms)

lemma never_connected_pushMessage:
  assumes "never_connected w" "StateManager_pushMessage r m w = Inr w'"
  shows "never_connected w'"
  using assms(2)
  by (rule pushMessage_Inr) (simp add: never_connected_store never_connectedD[OF assms(1)] assms(1))

lemma never_connected_pushAttachment:
  assumes "never_connected w" "StateManager_pushAttachment r a w = Inr w'"
  shows "never_connected w'"
  using assms(2)
  by (rule pushAttachment_Inr) (simp add: never_connected_store never_connectedD[OF assms(1)] assms(1))

lemma never_connected_SessionHandler_new:
  "never_connected w \<Longrightarrow> never_connected (snd (SessionHandler_new w))"
  by (simp add: SessionHandler_new_eq never_connected_def)

lemma never_connected_KKTLiveChatSDK_new:
  "never_connected w \<Longrightarrow> never_connected (snd (KKTLiveChatSDK_new w))"
  by (simp add: lookup_KKTLiveChatSDK_new never_connected_def)

lemma exec_never_connected:
  assumes "exec c w = Inr (v, w')" "never_connected w" "facade_call c"
  shows "never_connected w'"
proof (rule exec_preserves[where P = never_connected, OF assms(1,2)])
  fix w r s w'
  assume "never_connected w" "StateManager_setConnectionStatus r s w = Inr w'"
    "facade_call c \<longrightarrow> StateManager_instance w = Some r \<and> s \<noteq> connected"
  with assms(3) show "never_connected w'"
    by (simp add: never_connected_setConnectionStatus)
qed (erule never_connected_getInstance, erule never_connected_pushMessage, assumption,
     erule never_connected_pushAttachment, assumption,
     erule never_connected_SessionHandler_new, erule never_connected_KKTLiveChatSDK_new)

lemma run_never_connected:
  assumes "run cs w = Inr (vs, w')" "never_connected w" "list_all facade_call cs"
  shows "never_connected w'"
proof (rule run_preserves[where P = never_connected, OF assms(1,2)])
  fix c w v w'
  assume "c \<in> set cs" "never_connected w" "exec c w = Inr (v, w')"
  with assms(3) show "never_connected w'"
    by (auto simp: list_all_iff intro: exec_never_connected)
qed

lemma SessionHandler_getMessages_eq:
  assumes "is_SessionHandler w s"
    and "lookup (snd (StateManager_getInstance w)) (fst (StateManager_getInstance w))
       = Some (StateManager_obj sm)"
  shows "SessionHandler_getMessages s w = Inr (messages sm, snd (StateManager_getInstance w))"
  using assms by (simp add: SessionHandler_getMessages_def case_prod_beta getMessages_eq)

lemma SessionHandler_getAttachments_eq:
  assumes "is_SessionHandler w s"
    and "lookup (snd (StateManager_getInstance w)) (fst (StateManager_getInstance w))
       = Some (StateManager_obj sm)"
  shows "SessionHandler_getAttachments s w = Inr (attachments sm, snd (StateManager_getInstance w))"
  using assms by (simp add: SessionHandler_getAttachments_def case_prod_beta getAttachments_eq)

lemma KKTLiveChatSDK_getMessages_eq:
  assumes "lookup w r = Some (KKTLiveChatSDK_obj k)" "sessionHandler k = Some sh"
    and "is_SessionHandler w sh"
    and "lookup (snd (StateManager_getInstance w)) (fst (StateManager_getInstance w))
       = Some (StateManager_obj sm)"
  shows "KKTLiveChatSDK_getMessages r w = Inr (Some (messages sm), snd (StateManager_getInstance w))"
  using assms(1,2)
  by (simp add: KKTLiveChatSDK_getMessages_def KKTLiveChatSDK_at_def
      SessionHandler_getMessages_eq[OF assms(3,4)])

lemma KKTLiveChatSDK_getAttachments_eq:
  assumes "lookup w r = Some (KKTLiveChatSDK_obj k)" "sessionHandler k = Some sh"
    and "is_SessionHandler w sh"
    and "lookup (snd (StateManager_getInstance w)) (fst (StateManager_getInstance w))
       = Some (StateManager_obj sm)"
  shows "KKTLiveChatSDK_getAttachments r w
     = Inr (Some (attachments sm), snd (StateManager_getInstance w))"
  using assms(1,2)
  by (simp add: KKTLiveChatSDK_getAttachments_def KKTLiveChatSDK_at_def
      SessionHandler_getAttachments_eq[OF assms(3,4)])

lemma KKTLiveChatSDK_getters_present:
  assumes "well_formed w" "lookup w r = Some (KKTLiveChatSDK_obj k)"
  shows "(\<exists>ms w'. KKTLiveChatSDK_getMessages r w = Inr (Some ms, w')) \<and>
         (\<exists>as w'. KKTLiveChatSDK_getAttachments r w = Inr (Some as, w'))"
proof -
  from wf_sessionHandler[OF assms] obtain sh where
    sh: "sessionHandler k = Some sh" "is_SessionHandler w sh"
    by (auto simp: is_SessionHandler_def)
  from assms(1) obtain sm where
    sm: "lookup (snd (StateManager_getInstance w)) (fst (StateManager_getInstance w))
       = Some (StateManager_obj sm)"
    by (rule getInstance_StateManager)
  show ?thesis
    by (simp add: KKTLiveChatSDK_getMessages_eq[OF assms(2) sh sm]
        KKTLiveChatSDK_getAttachments_eq[OF assms(2) sh sm])
qed

lemmas model_defs =
  init_world_def and_then_def alloc_def lookup_def store_def console_log_def
  StateManager_at_def is_SessionHandler_def KKTLiveChatSDK_at_def
  StateManager_new_def StateManager_getInstance_def StateManager_setConnectionStatus_def
  StateManager_getConnectionStatus_def StateManager_pushMessage_def StateManager_getMessages_def
  StateManager_pushAttachment_def StateManager_getAttachments_def
  SessionHandler_new_def SessionHandler_connect_def SessionHandler_disconnect_def
  SessionHandler_sendMessage_def SessionHandler_sendAttachment_def
  SessionHandler_getMessages_def SessionHandler_getAttachments_def
  KKTLiveChatSDK_new_def KKTLiveChatSDK_connect_def KKTLiveChatSDK_disconnect_def
  KKTLiveChatSDK_sendMessage_def KKTLiveChatSDK_sendAttachment_def
  KKTLiveChatSDK_getMessages_def KKTLiveChatSDK_getAttachments_def returning_def

lemma lookup_store_same:
  "lookup w r = Some x \<Longrightarrow> lookup (store r y w) r = Some y"
  by (frule lookup_Some_less) simp

lemma pushMessages_run:
  assumes "lookup w r = Some (StateManager_obj sm)"
  shows "\<exists>w' sm'. run (map (Call_pushMessage r) ms) w = Inr (replicate (length ms) V_undefined, w') \<and>
      lookup w' r = Some (StateManager_obj sm') \<and> messages sm' = messages sm @ ms \<and>
      StateManager_instance w' = StateManager_instance w"
  using assms
proof (induction ms arbitrary: w sm)
  case Nil
  then show ?case by simp
next
  case (Cons m ms)
  let ?sm1 = "sm\<lparr>messages := messages sm @ [m]\<rparr>"
  let ?w1 = "store r (StateManager_obj ?sm1) (console_log [Text ''Pushing message:'', Logged m] w)"
  have e: "exec (Call_pushMessage r m) w = Inr (V_undefined, ?w1)"
    using Cons.prems by (simp add: pushMessage_eq returning_def)
  have l1: "lookup ?w1 r = Some (StateManager_obj ?sm1)"
    by (rule lookup_store_same[where x = "StateManager_obj sm"]) (simp add: Cons.prems)
  from Cons.IH[OF l1] obtain w' sm' where
    r: "run (map (Call_pushMessage r) ms) ?w1 = Inr (replicate (length ms) V_undefined, w')"
    and l': "lookup w' r = Some (StateManager_obj sm')"
    and m': "messages sm' = messages ?sm1 @ ms"
    and i': "StateManager_instance w' = StateManager_instance ?w1"
    by blast
  have "run (map (Call_pushMessage r) (m # ms)) w
      = Inr (replicate (length (m # ms)) V_undefined, w')"
    using e r by (simp del: exec.simps)
  moreover have "messages sm' = messages sm @ m # ms" using m' by simp
  moreover have "StateManager_instance w' = StateManager_instance w" using i' by simp
  ultimately show ?case using l' by blast
qed

lemma getInstance_fixed:
  "StateManager_getInstance w = (r, w1) \<Longrightarrow> StateManager_getInstance w1 = (r, w1)"
  by (rule getInstance_Some) (rule getInstance_instance)

lemma run_getInstance_Some:
  assumes "run cs w = Inr (vs, w')" "StateManager_instance w = Some r"
  shows "\<forall>i<length cs. cs ! i = Call_getInstance \<longrightarrow> vs ! i = V_ref r"
  using assms
proof (induction cs arbitrary: w vs)
  case Nil
  then show ?case by simp
next
  case (Cons c cs)
  from Cons.prems(1) obtain v w1 vs' where
    e: "exec c w = Inr (v, w1)" and r: "run cs w1 = Inr (vs', w')" and vs: "vs = v # vs'"
    by (auto simp: run_Cons_Inr simp del: run.simps)
  have "StateManager_instance w1 = Some r"
    using exec_evolves[OF e] Cons.prems(2) by (rule evolves_instance)
  with r have rest: "\<forall>i<length cs. cs ! i = Call_getInstance \<longrightarrow> vs' ! i = V_ref r"
    by (rule Cons.IH)
  have head: "c = Call_getInstance \<longrightarrow> v = V_ref r"
    using e Cons.prems(2) by (auto simp: getInstance_Some)
  show ?case
  proof (intro allI impI)
    fix i assume "i < length (c # cs)" "(c # cs) ! i = Call_getInstance"
    then show "vs ! i = V_ref r"
      using head rest vs by (cases i) auto
  qed
qed

lemma run_getInstance_same:
  assumes "run cs w = Inr (vs, w')"
  shows "\<exists>r. (\<forall>i<length cs. cs ! i = Call_getInstance \<longrightarrow> vs ! i = V_ref r) \<and>
     (Call_getInstance \<in> set cs \<longrightarrow> StateManager_instance w' = Some r)"
  using assms
proof (induction cs arbitrary: w vs)
  case Nil
  then show ?case by simp
next
  case (Cons c cs)
  from Cons.prems(1) obtain v w1 vs' where
    e: "exec c w = Inr (v, w1)" and r: "run cs w1 = Inr (vs', w')" and vs: "vs = v # vs'"
    by (auto simp: run_Cons_Inr simp del: run.simps)
  show ?case
  proof (cases "StateManager_instance w1")
    case None
    have c: "c \<noteq> Call_getInstance"
    proof
      assume "c = Call_getInstance"
      with e have "StateManager_getInstance w = (fst (StateManager_getInstance w), w1)"
        by (auto simp: case_prod_beta)
      then have "StateManager_instance w1 = Some (fst (StateManager_getInstance w))"
        by (rule getInstance_instance)
      with None show False by simp
    qed
    from Cons.IH[OF r] obtain r0 where
      rest: "\<forall>i<length cs. cs ! i = Call_getInstance \<longrightarrow> vs' ! i = V_ref r0"
      and fin: "Call_getInstance \<in> set cs \<longrightarrow> StateManager_instance w' = Some r0"
      by blast
    have "\<forall>i<length (c # cs). (c # cs) ! i = Call_getInstance \<longrightarrow> vs ! i = V_ref r0"
    proof (intro allI impI)
      fix i assume "i < length (c # cs)" "(c # cs) ! i = Call_getInstance"
      then show "vs ! i = V_ref r0"
        using c rest vs by (cases i) auto
    qed
    moreover have "Call_getInstance \<in> set (c # cs) \<longrightarrow> StateManager_instance w' = Some r0"
      using c fin by auto
    ultimately show ?thesis by blast
  next
    case (Some r0)
    with r have rest: "\<forall>i<length cs. cs ! i = Call_getInstance \<longrightarrow> vs' ! i = V_ref r0"
      by (rule run_getInstance_Some)
    have head: "c = Call_getInstance \<longrightarrow> v = V_ref r0"
    proof
      assume "c = Call_getInstance"
      with e have g: "StateManager_getInstance w = (fst (StateManager_getInstance w), w1)"
        and v: "v = V_ref (fst (StateManager_getInstance w))"
        by (auto simp: case_prod_beta)
      from g have "StateManager_instance w1 = Some (fst (StateManager_getInstance w))"
        by (rule getInstance_instance)
      with Some v show "v = V_ref r0" by simp
    qed
    have "\<forall>i<length (c # cs). (c # cs) ! i = Call_getInstance \<longrightarrow> vs ! i = V_ref r0"
    proof (intro allI impI)
      fix i assume "i < length (c # cs)" "(c # cs) ! i = Call_getInstance"
      then show "vs ! i = V_ref r0"
        using head rest vs by (cases i) auto
    qed
    moreover have "StateManager_instance w' = Some r0"
      using run_evolves[OF r] Some by (rule evolves_instance)
    ultimately show ?thesis by blast
  qed
qed

lemma SessionHandler_getMessages_instance:
  assumes "is_SessionHandler w s" "StateManager_instance w = Some r"
    and "lookup w r = Some (StateManager_obj sm)"
  shows "SessionHandler_getMessages s w = Inr (messages sm, w)"
  using SessionHandler_getMessages_eq[of w s sm] assms by (simp add: getInstance_Some)

lemma SessionHandler_sendMessage_eq:
  assumes "is_SessionHandler w s"
    and "lookup (snd (StateManager_getInstance w)) (fst (StateManager_getInstance w))
       = Some (StateManager_obj sm)"
  shows "SessionHandler_sendMessage s m w =
     Inr (store (fst (StateManager_getInstance w))
            (StateManager_obj (sm\<lparr>messages := messages sm @ [m]\<rparr>))
            (console_log [Text ''Pushing message:'', Logged m] (snd (StateManager_getInstance w))))"
  using assms by (simp add: SessionHandler_sendMessage_def case_prod_beta pushMessage_eq)

lemma SessionHandler_connect_eq:
  "is_SessionHandler w s \<Longrightarrow>
   SessionHandler_connect s w =
     StateManager_setConnectionStatus (fst (StateManager_getInstance w)) connecting
       (snd (StateManager_getInstance w))"
  by (simp add: SessionHandler_connect_def case_prod_beta)

lemma SessionHandler_disconnect_eq:
  "is_SessionHandler w s \<Longrightarrow>
   SessionHandler_disconnect s w =
     StateManager_setConnectionStatus (fst (StateManager_getInstance w)) disconnected
       (snd (StateManager_getInstance w))"
  by (simp add: SessionHandler_disconnect_def case_prod_beta)

lemma setConnectionStatus_on_instance:
  assumes "well_formed w"
  shows "\<exists>w1. StateManager_setConnectionStatus (fst (StateManager_getInstance w)) s
              (snd (StateManager_getInstance w)) = Inr w1 \<and>
           StateManager_getInstance w1 = (fst (StateManager_getInstance w), w1) \<and>
           StateManager_getConnectionStatus (fst (StateManager_getInstance w)) w1 = Inr s"
proof -
  let ?r = "fst (StateManager_getInstance w)" and ?w0 = "snd (StateManager_getInstance w)"
  from assms obtain sm where l: "lookup ?w0 ?r = Some (StateManager_obj sm)"
    by (rule getInstance_StateManager)
  have i: "StateManager_instance ?w0 = Some ?r"
    by (rule getInstance_instance) simp
  let ?w1 = "store ?r (StateManager_obj (sm\<lparr>connectionStatus := s\<rparr>)) ?w0"
  have "lookup ?w1 ?r = Some (StateManager_obj (sm\<lparr>connectionStatus := s\<rparr>))"
    using l by (rule lookup_store_same)
  from getConnectionStatus_eq[OF this] setConnectionStatus_eq[OF l, of s] i
  show ?thesis by (simp add: getInstance_Some)
qed

lemma held_messages_instance:
  "StateManager_instance w = Some r \<Longrightarrow> lookup w r = Some (StateManager_obj sm) \<Longrightarrow>
   held_messages w = messages sm"
  by (simp add: held_messages_def StateManager_at_def)

lemma held_messages_getInstance:
  "held_messages (snd (StateManager_getInstance w)) = held_messages w"
proof (cases "StateManager_instance w")
  case None
  then show ?thesis
    by (simp add: getInstance_None held_messages_def StateManager_at_def)
next
  case (Some r)
  then show ?thesis by (simp add: getInstance_Some)
qed

lemma held_messages_store:
  assumes "well_formed w" "lookup w r = Some (StateManager_obj sm)"
  shows "held_messages (store r (StateManager_obj sm') w) = messages sm'"
proof -
  have i: "StateManager_instance w = Some r" using assms by (rule wf_only)
  have "lookup (store r (StateManager_obj sm') w) r = Some (StateManager_obj sm')"
    using assms(2) by (rule lookup_store_same)
  with i show ?thesis by (simp add: held_messages_instance)
qed

lemma StateManager_at_console_log [simp]:
  "StateManager_at (console_log a w) r = StateManager_at w r"
  by (simp add: StateManager_at_def)

lemma held_messages_console_log [simp]:
  "held_messages (console_log a w) = held_messages w"
  by (simp add: held_messages_def cong: option.case_cong)

lemma held_messages_old:
  assumes "well_formed w" "\<And>r x. lookup w r = Some x \<Longrightarrow> lookup w' r = Some x"
    and "StateManager_instance w' = StateManager_instance w"
  shows "held_messages w' = held_messages w"
proof (cases "StateManager_instance w")
  case None
  with assms(3) show ?thesis by (simp add: held_messages_def)
next
  case (Some r)
  from wf_instance[OF assms(1) Some] obtain sm where l: "lookup w r = Some (StateManager_obj sm)"
    by blast
  then have "lookup w' r = Some (StateManager_obj sm)" by (rule assms(2))
  with l Some assms(3) show ?thesis by (simp add: held_messages_instance)
qed

lemma held_messages_SessionHandler_new:
  "well_formed w \<Longrightarrow> held_messages (snd (SessionHandler_new w)) = held_messages w"
  by (erule held_messages_old) (auto simp: SessionHandler_new_eq dest: lookup_Some_neq)

lemma held_messages_KKTLiveChatSDK_new:
  "well_formed w \<Longrightarrow> held_messages (snd (KKTLiveChatSDK_new w)) = held_messages w"
  by (erule held_messages_old)
    (auto simp: lookup_KKTLiveChatSDK_new instance_KKTLiveChatSDK_new dest: lookup_Some_less)

lemma held_messages_setConnectionStatus:
  assumes "well_formed w" "StateManager_setConnectionStatus r s w = Inr w'"
  shows "held_messages w' = held_messages w"
proof -
  from assms(2) obtain sm where l: "lookup w r = Some (StateManager_obj sm)"
    and w': "w' = store r (StateManager_obj (sm\<lparr>connectionStatus := s\<rparr>)) w"
    by (rule setConnectionStatus_Inr)
  have "held_messages w = messages sm"
    using wf_only[OF assms(1) l] l by (rule held_messages_instance)
  then show ?thesis unfolding w' by (simp add: held_messages_store[OF assms(1) l])
qed

lemma held_messages_pushAttachment:
  assumes "well_formed w" "StateManager_pushAttachment r a w = Inr w'"
  shows "held_messages w' = held_messages w"
proof -
  from assms(2) obtain sm where l: "lookup w r = Some (StateManager_obj sm)"
    and w': "w' = store r (StateManager_obj (sm\<lparr>attachments := attachments sm @ [a]\<rparr>)) w"
    by (rule pushAttachment_Inr)
  have "held_messages w = messages sm"
    using wf_only[OF assms(1) l] l by (rule held_messages_instance)
  then show ?thesis unfolding w' by (simp add: held_messages_store[OF assms(1) l])
qed

lemma held_messages_pushMessage:
  assumes "well_formed w" "StateManager_pushMessage r m w = Inr w'"
  shows "held_messages w' = held_messages w @ [m]"
proof -
  from assms(2) obtain sm where l: "lookup w r = Some (StateManager_obj sm)"
    and w': "w' = store r (StateManager_obj (sm\<lparr>messages := messages sm @ [m]\<rparr>))
            (console_log [Text ''Pushing message:'', Logged m] w)"
    by (rule pushMessage_Inr)
  let ?w1 = "console_log [Text ''Pushing message:'', Logged m] w"
  have wf1: "well_formed ?w1" using assms(1) by simp
  have l1: "lookup ?w1 r = Some (StateManager_obj sm)" using l by simp
  have "held_messages w = messages sm"
    using wf_only[OF assms(1) l] l by (rule held_messages_instance)
  then show ?thesis unfolding w' by (simp add: held_messages_store[OF wf1 l1])
qed

lemma held_messages_delegate:
  assumes "well_formed w" "exec (delegate sm opn) w = Inr (v, w')"
  shows "held_messages w' = held_messages w @ pushed (On_SessionHandler this opn)"
  using assms
  by (cases opn)
    (auto simp: returning_Inr and_then_Inr dest: held_messages_setConnectionStatus
      held_messages_pushMessage held_messages_pushAttachment)

lemma held_messages_SessionHandler_op:
  assumes "well_formed w" "SessionHandler_op this opn w = Inr (v, w')"
  shows "held_messages w' = held_messages w @ pushed (On_SessionHandler this opn)"
proof -
  have sh: "is_SessionHandler w this"
    using assms(2) SessionHandler_op_TypeError[of w this opn] by auto
  have "exec (delegate (fst (StateManager_getInstance w)) opn) (snd (StateManager_getInstance w))
      = Inr (v, w')"
    using assms(2) by (simp add: SessionHandler_op_delegate[OF sh])
  with getInstance_wf_snd[OF assms(1)]
  have "held_messages w' = held_messages (snd (StateManager_getInstance w))
      @ pushed (On_SessionHandler this opn)"
    by (rule held_messages_delegate)
  then show ?thesis by (simp add: held_messages_getInstance)
qed

lemma pushed_facade: "pushed (On_KKTLiveChatSDK r opn) = pushed (On_SessionHandler r' opn)"
  by (cases opn) simp_all

lemma held_messages_exec:
  assumes "well_formed w" "exec c w = Inr (v, w')"
  shows "held_messages w' = held_messages w @ pushed c"
proof (cases c)
  case Call_getInstance
  with assms(2) have "w' = snd (StateManager_getInstance w)" by (auto simp: case_prod_beta)
  then show ?thesis by (simp add: Call_getInstance held_messages_getInstance)
next
  case (Call_setConnectionStatus r s)
  with assms(2) have "StateManager_setConnectionStatus r s w = Inr w'" by (simp add: returning_Inr)
  from held_messages_setConnectionStatus[OF assms(1) this] show ?thesis by (simp add: Call_setConnectionStatus)
next
  case (Call_getConnectionStatus r)
  with assms(2) show ?thesis by (auto simp: and_then_Inr)
next
  case (Call_pushMessage r m)
  with assms(2) have "StateManager_pushMessage r m w = Inr w'" by (simp add: returning_Inr)
  from held_messages_pushMessage[OF assms(1) this] show ?thesis by (simp add: Call_pushMessage)
next
  case (Call_getMessages r)
  with assms(2) show ?thesis by (auto simp: and_then_Inr)
next
  case (Call_pushAttachment r a)
  with assms(2) have "StateManager_pushAttachment r a w = Inr w'" by (simp add: returning_Inr)
  from held_messages_pushAttachment[OF assms(1) this] show ?thesis by (simp add: Call_pushAttachment)
next
  case (Call_getAttachments r)
  with assms(2) show ?thesis by (auto simp: and_then_Inr)
next
  case New_SessionHandler
  with assms(2) have "w' = snd (SessionHandler_new w)" by (auto simp: case_prod_beta)
  then show ?thesis by (simp add: New_SessionHandler held_messages_SessionHandler_new[OF assms(1)])
next
  case (On_SessionHandler r opn)
  with assms(2) have "SessionHandler_op r opn w = Inr (v, w')" by simp
  from held_messages_SessionHandler_op[OF assms(1) this] show ?thesis
    by (simp add: On_SessionHandler)
next
  case New_KKTLiveChatSDK
  with assms(2) have "w' = snd (KKTLiveChatSDK_new w)" by (auto simp: case_prod_beta)
  then show ?thesis by (simp add: New_KKTLiveChatSDK held_messages_KKTLiveChatSDK_new[OF assms(1)])
next
  case (On_KKTLiveChatSDK r opn)
  with assms(2) have e: "KKTLiveChatSDK_op r opn w = Inr (v, w')" by simp
  then obtain k where l: "lookup w r = Some (KKTLiveChatSDK_obj k)"
    using KKTLiveChatSDK_op_TypeError[of w r opn]
    by (cases "KKTLiveChatSDK_at w r") (auto simp: KKTLiveChatSDK_at_Some)
  from wf_sessionHandler[OF assms(1) l] obtain sh where sh: "sessionHandler k = Some sh"
    by blast
  from e have "SessionHandler_op sh opn w = Inr (v, w')"
    by (simp add: KKTLiveChatSDK_op_delegate[OF l sh])
  with assms(1) have "held_messages w' = held_messages w @ pushed (On_SessionHandler sh opn)"
    by (rule held_messages_SessionHandler_op)
  then show ?thesis by (simp add: On_KKTLiveChatSDK pushed_facade[of r opn sh])
qed

lemma held_messages_run:
  assumes "run cs w = Inr (vs, w')" "well_formed w"
  shows "held_messages w' = held_messages w @ concat (map pushed cs)"
  using assms
proof (induction cs arbitrary: w vs)
  case Nil
  then show ?case by simp
next
  case (Cons c cs)
  from Cons.prems(1) obtain v w1 vs' where
    e: "exec c w = Inr (v, w1)" and r: "run cs w1 = Inr (vs', w')"
    by (auto simp: run_Cons_Inr simp del: run.simps)
  have "held_messages w1 = held_messages w @ pushed c"
    using Cons.prems(2) e by (rule held_messages_exec)
  moreover have "held_messages w' = held_messages w1 @ concat (map pushed cs)"
    using r exec_wf[OF e Cons.prems(2)] by (rule Cons.IH)
  ultimately show ?case by simp
qed

lemma getMessages_held:
  assumes "well_formed w"
  shows "StateManager_getMessages (fst (StateManager_getInstance w))
           (snd (StateManager_getInstance w)) = Inr (held_messages w)"
proof -
  let ?r = "fst (StateManager_getInstance w)" and ?w0 = "snd (StateManager_getInstance w)"
  from assms obtain sm where l: "lookup ?w0 ?r = Some (StateManager_obj sm)"
    by (rule getInstance_StateManager)
  have i: "StateManager_instance ?w0 = Some ?r" by (rule getInstance_instance) simp
  have "held_messages ?w0 = messages sm" using i l by (rule held_messages_instance)
  with getMessages_eq[OF l] show ?thesis by (simp add: held_messages_getInstance)
qed

section \<open>The claims\<close>

text \<open>
  C1. Whenever the accessor returns, the static field holds the reference it returned, and
  calling it again returns the same reference and changes nothing; it allocates (a reference
  not in use before) exactly when it finds the static field empty. For every program of
  public calls run from the initial state, every call of the accessor in the program,
  wherever it stands, returned one and the same reference \<open>r\<close>, and the next call returns
  \<open>r\<close> as well. After that call \<open>r\<close> is the only \<^verbatim>\<open>StateManager\<close> in the store, and
  what is written through \<open>r\<close> (a status, a message, an attachment) is what is read through
  the reference that one more call of the accessor returns.
\<close>

theorem getInstance_singleton:
  assumes "run cs init_world = Inr (vs, w)"
  shows "(\<forall>w0 r0 w1. StateManager_getInstance w0 = (r0, w1) \<longrightarrow>
            StateManager_instance w1 = Some r0 \<and> StateManager_getInstance w1 = (r0, w1) \<and>
            (StateManager_instance w0 = None \<longrightarrow>
               lookup w0 r0 = None \<and> StateManager_at w1 r0 \<noteq> None) \<and>
            (StateManager_instance w0 \<noteq> None \<longrightarrow> w1 = w0)) \<and>
         (\<exists>r w1. StateManager_getInstance w = (r, w1) \<and>
            (\<forall>i<length cs. cs ! i = Call_getInstance \<longrightarrow> vs ! i = V_ref r) \<and>
            (\<forall>r'. StateManager_at w1 r' \<noteq> None \<longleftrightarrow> r' = r) \<and>
            (\<forall>s. \<exists>w'. StateManager_setConnectionStatus r s w1 = Inr w' \<and>
               StateManager_getInstance w' = (r, w') \<and>
               StateManager_getConnectionStatus r w' = Inr s) \<and>
            (\<forall>m. \<exists>old w'. StateManager_getMessages r w1 = Inr old \<and>
               StateManager_pushMessage r m w1 = Inr w' \<and>
               StateManager_getInstance w' = (r, w') \<and>
               StateManager_getMessages r w' = Inr (old @ [m])) \<and>
            (\<forall>a. \<exists>old w'. StateManager_getAttachments r w1 = Inr old \<and>
               StateManager_pushAttachment r a w1 = Inr w' \<and>
               StateManager_getInstance w' = (r, w') \<and>
               StateManager_getAttachments r w' = Inr (old @ [a])))"
proof -
  have general: "\<forall>w0 r0 w1. StateManager_getInstance w0 = (r0, w1) \<longrightarrow>
            StateManager_instance w1 = Some r0 \<and> StateManager_getInstance w1 = (r0, w1) \<and>
            (StateManager_instance w0 = None \<longrightarrow>
               lookup w0 r0 = None \<and> StateManager_at w1 r0 \<noteq> None) \<and>
            (StateManager_instance w0 \<noteq> None \<longrightarrow> w1 = w0)"
  proof (intro allI impI conjI)
    fix w0 r0 w1 assume g: "StateManager_getInstance w0 = (r0, w1)"
    show "StateManager_instance w1 = Some r0" using g by (rule getInstance_instance)
    show "StateManager_getInstance w1 = (r0, w1)" using g by (rule getInstance_fixed)
    { assume n: "StateManager_instance w0 = None"
      from getInstance_None[OF n] g show "lookup w0 r0 = None" by auto
      from getInstance_None[OF n] g show "StateManager_at w1 r0 \<noteq> None"
        by (auto simp: StateManager_at_def) }
    { assume "StateManager_instance w0 \<noteq> None"
      then obtain r where "StateManager_instance w0 = Some r" by auto
      from getInstance_Some[OF this] g show "w1 = w0" by simp }
  qed
  let ?r = "fst (StateManager_getInstance w)" and ?w1 = "snd (StateManager_getInstance w)"
  have wf: "well_formed w" using assms by (rule run_well_formed)
  then have wf1: "well_formed ?w1" by (rule getInstance_wf_snd)
  have i: "StateManager_instance ?w1 = Some ?r" by (rule getInstance_instance) simp
  from wf obtain sm where l: "lookup ?w1 ?r = Some (StateManager_obj sm)"
    by (rule getInstance_StateManager)
  have same: "\<forall>i<length cs. cs ! i = Call_getInstance \<longrightarrow> vs ! i = V_ref ?r"
  proof (cases "Call_getInstance \<in> set cs")
    case True
    from run_getInstance_same[OF assms] True obtain r0 where
      r0: "\<forall>i<length cs. cs ! i = Call_getInstance \<longrightarrow> vs ! i = V_ref r0"
      and "StateManager_instance w = Some r0"
      by blast
    then have "?r = r0" by (simp add: getInstance_Some)
    with r0 show ?thesis by simp
  next
    case False
    then show ?thesis by (metis nth_mem)
  qed
  have only: "\<forall>r'. StateManager_at ?w1 r' \<noteq> None \<longleftrightarrow> r' = ?r"
  proof (intro allI iffI)
    fix r' assume "StateManager_at ?w1 r' \<noteq> None"
    then obtain sm' where "lookup ?w1 r' = Some (StateManager_obj sm')"
      by (auto simp: StateManager_at_Some)
    from wf_only[OF wf1 this] i show "r' = ?r" by simp
  next
    fix r' assume "r' = ?r"
    with l show "StateManager_at ?w1 r' \<noteq> None" by (simp add: StateManager_at_def)
  qed
  have st: "\<forall>s. \<exists>w'. StateManager_setConnectionStatus ?r s ?w1 = Inr w' \<and>
               StateManager_getInstance w' = (?r, w') \<and>
               StateManager_getConnectionStatus ?r w' = Inr s"
  proof
    fix s
    let ?w' = "store ?r (StateManager_obj (sm\<lparr>connectionStatus := s\<rparr>)) ?w1"
    have "lookup ?w' ?r = Some (StateManager_obj (sm\<lparr>connectionStatus := s\<rparr>))"
      using l by (rule lookup_store_same)
    from getConnectionStatus_eq[OF this] setConnectionStatus_eq[OF l, of s] i
    show "\<exists>w'. StateManager_setConnectionStatus ?r s ?w1 = Inr w' \<and>
               StateManager_getInstance w' = (?r, w') \<and>
               StateManager_getConnectionStatus ?r w' = Inr s"
      by (simp add: getInstance_Some)
  qed
  have ms: "\<forall>m. \<exists>old w'. StateManager_getMessages ?r ?w1 = Inr old \<and>
               StateManager_pushMessage ?r m ?w1 = Inr w' \<and>
               StateManager_getInstance w' = (?r, w') \<and>
               StateManager_getMessages ?r w' = Inr (old @ [m])"
  proof
    fix m
    let ?w' = "store ?r (StateManager_obj (sm\<lparr>messages := messages sm @ [m]\<rparr>))
                 (console_log [Text ''Pushing message:'', Logged m] ?w1)"
    have "lookup ?w' ?r = Some (StateManager_obj (sm\<lparr>messages := messages sm @ [m]\<rparr>))"
      by (rule lookup_store_same[where x = "StateManager_obj sm"]) (simp add: l)
    from getMessages_eq[OF this] getMessages_eq[OF l] pushMessage_eq[OF l, of m] i
    show "\<exists>old w'. StateManager_getMessages ?r ?w1 = Inr old \<and>
               StateManager_pushMessage ?r m ?w1 = Inr w' \<and>
               StateManager_getInstance w' = (?r, w') \<and>
               StateManager_getMessages ?r w' = Inr (old @ [m])"
      by (simp add: getInstance_Some)
  qed
  have as: "\<forall>a. \<exists>old w'. StateManager_getAttachments ?r ?w1 = Inr old \<and>
               StateManager_pushAttachment ?r a ?w1 = Inr w' \<and>
               StateManager_getInstance w' = (?r, w') \<and>
               StateManager_getAttachments ?r w' = Inr (old @ [a])"
  proof
    fix a
    let ?w' = "store ?r (StateManager_obj (sm\<lparr>attachments := attachments sm @ [a]\<rparr>)) ?w1"
    have "lookup ?w' ?r = Some (StateManager_obj (sm\<lparr>attachments := attachments sm @ [a]\<rparr>))"
      using l by (rule lookup_store_same)
    from getAttachments_eq[OF this] getAttachments_eq[OF l] pushAttachment_eq[OF l, of a] i
    show "\<exists>old w'. StateManager_getAttachments ?r ?w1 = Inr old \<and>
               StateManager_pushAttachment ?r a ?w1 = Inr w' \<and>
               StateManager_getInstance w' = (?r, w') \<and>
               StateManager_getAttachments ?r w' = Inr (old @ [a])"
      by (simp add: getInstance_Some)
  qed
  have "\<exists>r w1. StateManager_getInstance w = (r, w1) \<and>
            (\<forall>i<length cs. cs ! i = Call_getInstance \<longrightarrow> vs ! i = V_ref r) \<and>
            (\<forall>r'. StateManager_at w1 r' \<noteq> None \<longleftrightarrow> r' = r) \<and>
            (\<forall>s. \<exists>w'. StateManager_setConnectionStatus r s w1 = Inr w' \<and>
               StateManager_getInstance w' = (r, w') \<and>
               StateManager_getConnectionStatus r w' = Inr s) \<and>
            (\<forall>m. \<exists>old w'. StateManager_getMessages r w1 = Inr old \<and>
               StateManager_pushMessage r m w1 = Inr w' \<and>
               StateManager_getInstance w' = (r, w') \<and>
               StateManager_getMessages r w' = Inr (old @ [m])) \<and>
            (\<forall>a. \<exists>old w'. StateManager_getAttachments r w1 = Inr old \<and>
               StateManager_pushAttachment r a w1 = Inr w' \<and>
               StateManager_getInstance w' = (r, w') \<and>
               StateManager_getAttachments r w' = Inr (old @ [a]))"
    using same only st ms as
    by (intro exI[of _ ?r] exI[of _ ?w1] conjI) simp_all
  with general show ?thesis by (rule conjI)
qed

theorem getInstance_singleton_witness:
  "run [Call_getInstance, New_KKTLiveChatSDK,
        On_KKTLiveChatSDK 1
          (SendMessage \<lparr>id_msg = None, content = ''hi'', sender = ''me'', timestamp = 5\<rparr>),
        Call_getInstance, Call_getMessages 0] init_world
     = Inr ([V_ref 0, V_ref 1, V_undefined, V_ref 0,
             V_messages [\<lparr>id_msg = None, content = ''hi'', sender = ''me'', timestamp = 5\<rparr>]],
         \<lparr>heap = [StateManager_obj
                    \<lparr>connectionStatus = disconnected,
                     messages = [\<lparr>id_msg = None, content = ''hi'', sender = ''me'',
                                  timestamp = 5\<rparr>],
                     attachments = []\<rparr>,
                  KKTLiveChatSDK_obj \<lparr>sessionHandler = Some 2\<rparr>, SessionHandler_obj],
          StateManager_instance = Some 0,
          console = [[Text ''KKTLiveChatSDK constructor''], [Text ''SessionHandler constructor''],
                     [Text ''Pushing message:'',
                      Logged \<lparr>id_msg = None, content = ''hi'', sender = ''me'',
                              timestamp = 5\<rparr>]]\<rparr>) \<and>
   (\<exists>w'. StateManager_setConnectionStatus 0 connected
         \<lparr>heap = [StateManager_obj
                    \<lparr>connectionStatus = disconnected,
                     messages = [\<lparr>id_msg = None, content = ''hi'', sender = ''me'',
                                  timestamp = 5\<rparr>],
                     attachments = []\<rparr>,
                  KKTLiveChatSDK_obj \<lparr>sessionHandler = Some 2\<rparr>, SessionHandler_obj],
          StateManager_instance = Some 0,
          console = [[Text ''KKTLiveChatSDK constructor''], [Text ''SessionHandler constructor''],
                     [Text ''Pushing message:'',
                      Logged \<lparr>id_msg = None, content = ''hi'', sender = ''me'',
                              timestamp = 5\<rparr>]]\<rparr> = Inr w' \<and>
        StateManager_getInstance w' = (0, w') \<and>
        StateManager_getConnectionStatus 0 w' = Inr connected)"
  (is "run ?cs init_world = Inr (?vs, ?w) \<and> ?observe")
proof -
  have r: "run ?cs init_world = Inr (?vs, ?w)" by (simp add: model_defs)
  have g: "StateManager_getInstance ?w = (0, ?w)" by (simp add: StateManager_getInstance_def)
  from getInstance_singleton [OF r] obtain r0 w1 where
    "StateManager_getInstance ?w = (r0, w1)"
    and "\<forall>i<length ?cs. ?cs ! i = Call_getInstance \<longrightarrow> ?vs ! i = V_ref r0"
    and "\<forall>s. \<exists>w'. StateManager_setConnectionStatus r0 s w1 = Inr w' \<and>
         StateManager_getInstance w' = (r0, w') \<and>
         StateManager_getConnectionStatus r0 w' = Inr s"
    by blast
  with g have ?observe by simp
  with r show ?thesis by blast
qed

text \<open>
  C2. In the state that any program of public calls reaches from the initial state,
  \<^verbatim>\<open>getMessages()\<close> on the shared instance returns exactly the messages the program has
  pushed, each one as it was given, in the order of the calls, whatever else the program
  called in between. Pushing is \<^verbatim>\<open>pushMessage\<close> on the instance, called by the client or
  by \<^verbatim>\<open>sendMessage\<close> of a facade. Any \<open>N\<close> further \<^verbatim>\<open>pushMessage\<close> calls on the instance
  succeed, and \<^verbatim>\<open>getMessages()\<close> then returns the earlier messages followed by the \<open>N\<close> new
  ones in order; on an instance nothing was pushed to, exactly the \<open>N\<close> new ones. Nothing
  is asked of the contents: they need not be distinct.
\<close>

theorem pushMessage_keeps_order:
  assumes "run cs init_world = Inr (vs, w)"
  shows "\<exists>r w0. StateManager_getInstance w = (r, w0) \<and>
           StateManager_getMessages r w0 = Inr (concat (map pushed cs)) \<and>
           (\<forall>ms. \<exists>w'. run (map (Call_pushMessage r) ms) w0
                          = Inr (replicate (length ms) V_undefined, w') \<and>
              StateManager_getInstance w' = (r, w') \<and>
              StateManager_getMessages r w' = Inr (concat (map pushed cs) @ ms))"
proof -
  have wf: "well_formed w" using assms by (rule run_well_formed)
  let ?r = "fst (StateManager_getInstance w)" and ?w0 = "snd (StateManager_getInstance w)"
  have "held_messages w = held_messages init_world @ concat (map pushed cs)"
    using assms wf_init by (rule held_messages_run)
  then have held: "held_messages w = concat (map pushed cs)"
    by (simp add: held_messages_def init_world_def)
  have get: "StateManager_getMessages ?r ?w0 = Inr (concat (map pushed cs))"
    using getMessages_held[OF wf] held by simp
  then obtain sm where l: "lookup ?w0 ?r = Some (StateManager_obj sm)"
    and old: "concat (map pushed cs) = messages sm"
    by (rule getMessages_Inr)
  have i: "StateManager_instance ?w0 = Some ?r" by (rule getInstance_instance) simp
  have more: "\<forall>ms. \<exists>w'. run (map (Call_pushMessage ?r) ms) ?w0
                          = Inr (replicate (length ms) V_undefined, w') \<and>
              StateManager_getInstance w' = (?r, w') \<and>
              StateManager_getMessages ?r w' = Inr (concat (map pushed cs) @ ms)"
  proof
    fix ms
    from pushMessages_run[OF l, of ms] obtain w' sm' where
      r: "run (map (Call_pushMessage ?r) ms) ?w0 = Inr (replicate (length ms) V_undefined, w')"
      and l': "lookup w' ?r = Some (StateManager_obj sm')"
      and m': "messages sm' = messages sm @ ms"
      and i': "StateManager_instance w' = StateManager_instance ?w0"
      by blast
    from i i' have "StateManager_getInstance w' = (?r, w')" by (simp add: getInstance_Some)
    moreover have "StateManager_getMessages ?r w' = Inr (concat (map pushed cs) @ ms)"
      using getMessages_eq[OF l'] m' old by simp
    ultimately show "\<exists>w'. run (map (Call_pushMessage ?r) ms) ?w0
                          = Inr (replicate (length ms) V_undefined, w') \<and>
              StateManager_getInstance w' = (?r, w') \<and>
              StateManager_getMessages ?r w' = Inr (concat (map pushed cs) @ ms)"
      using r by blast
  qed
  from get more show ?thesis
    by (intro exI[of _ ?r] exI[of _ ?w0]) simp
qed

theorem pushMessage_keeps_order_witness:
  "run [New_SessionHandler, Call_getInstance,
        On_SessionHandler 0
          (SendMessage \<lparr>id_msg = None, content = ''a'', sender = ''s'', timestamp = 2\<rparr>),
        Call_setConnectionStatus 1 connected] init_world
     = Inr ([V_ref 0, V_ref 1, V_undefined, V_undefined],
         \<lparr>heap = [SessionHandler_obj,
                  StateManager_obj
                    \<lparr>connectionStatus = connected,
                     messages = [\<lparr>id_msg = None, content = ''a'', sender = ''s'',
                                  timestamp = 2\<rparr>],
                     attachments = []\<rparr>],
          StateManager_instance = Some 1,
          console = [[Text ''SessionHandler constructor''],
                     [Text ''Pushing message:'',
                      Logged \<lparr>id_msg = None, content = ''a'', sender = ''s'',
                              timestamp = 2\<rparr>]]\<rparr>) \<and>
   (\<exists>r w0. StateManager_getInstance
         \<lparr>heap = [SessionHandler_obj,
                  StateManager_obj
                    \<lparr>connectionStatus = connected,
                     messages = [\<lparr>id_msg = None, content = ''a'', sender = ''s'',
                                  timestamp = 2\<rparr>],
                     attachments = []\<rparr>],
          StateManager_instance = Some 1,
          console = [[Text ''SessionHandler constructor''],
                     [Text ''Pushing message:'',
                      Logged \<lparr>id_msg = None, content = ''a'', sender = ''s'',
                              timestamp = 2\<rparr>]]\<rparr> = (r, w0) \<and>
      StateManager_getMessages r w0
        = Inr [\<lparr>id_msg = None, content = ''a'', sender = ''s'', timestamp = 2\<rparr>] \<and>
      (\<exists>w'. run [Call_pushMessage r
                    \<lparr>id_msg = Some ''7'', content = ''b'', sender = ''s'', timestamp = 1\<rparr>,
                  Call_pushMessage r
                    \<lparr>id_msg = None, content = ''c'', sender = ''s'', timestamp = 3\<rparr>] w0
                = Inr ([V_undefined, V_undefined], w') \<and>
             StateManager_getMessages r w'
               = Inr [\<lparr>id_msg = None, content = ''a'', sender = ''s'', timestamp = 2\<rparr>,
                      \<lparr>id_msg = Some ''7'', content = ''b'', sender = ''s'', timestamp = 1\<rparr>,
                      \<lparr>id_msg = None, content = ''c'', sender = ''s'', timestamp = 3\<rparr>]))"
  (is "run ?cs init_world = Inr (?vs, ?w) \<and> ?pushed")
proof -
  have r: "run ?cs init_world = Inr (?vs, ?w)" by (simp add: model_defs)
  from pushMessage_keeps_order [OF r] obtain r0 w0 where
    g: "StateManager_getInstance ?w = (r0, w0)"
    and m: "StateManager_getMessages r0 w0 = Inr (concat (map pushed ?cs))"
    and p: "\<forall>ms. \<exists>w'. run (map (Call_pushMessage r0) ms) w0
                          = Inr (replicate (length ms) V_undefined, w') \<and>
              StateManager_getInstance w' = (r0, w') \<and>
              StateManager_getMessages r0 w' = Inr (concat (map pushed ?cs) @ ms)"
    by blast
  from spec [OF p,
      of "[\<lparr>id_msg = Some ''7'', content = ''b'', sender = ''s'', timestamp = 1\<rparr>,
           \<lparr>id_msg = None, content = ''c'', sender = ''s'', timestamp = 3\<rparr>]"]
  obtain w' where
    "run (map (Call_pushMessage r0)
        [\<lparr>id_msg = Some ''7'', content = ''b'', sender = ''s'', timestamp = 1\<rparr>,
         \<lparr>id_msg = None, content = ''c'', sender = ''s'', timestamp = 3\<rparr>]) w0
      = Inr (replicate (length
        [\<lparr>id_msg = Some ''7'', content = ''b'', sender = ''s'', timestamp = 1\<rparr>,
         \<lparr>id_msg = None, content = ''c'', sender = ''s'', timestamp = 3\<rparr>]) V_undefined, w')"
    "StateManager_getMessages r0 w' = Inr (concat (map pushed ?cs) @
        [\<lparr>id_msg = Some ''7'', content = ''b'', sender = ''s'', timestamp = 1\<rparr>,
         \<lparr>id_msg = None, content = ''c'', sender = ''s'', timestamp = 3\<rparr>])"
    by blast
  with g m have ?pushed
    by (intro exI[of _ r0] exI[of _ w0] conjI exI[of _ w']) (simp_all del: run.simps)
  with r show ?thesis by blast
qed

text \<open>
  C3. In every state a client can reach, on every \<^verbatim>\<open>SessionHandler\<close>: \<^verbatim>\<open>connect()\<close> is
  the single call \<^verbatim>\<open>setConnectionStatus("connecting")\<close> on what the accessor returns, it
  succeeds, and the status read through the accessor afterwards is \<^verbatim>\<open>"connecting"\<close>, not
  \<^verbatim>\<open>"connected"\<close>; \<^verbatim>\<open>disconnect()\<close> is the single call
  \<^verbatim>\<open>setConnectionStatus("disconnected")\<close>, and the status read afterwards is
  \<^verbatim>\<open>"disconnected"\<close>.
\<close>

theorem connect_disconnect_status:
  assumes "run cs init_world = Inr (vs, w)" and "is_SessionHandler w s"
  shows "(\<exists>w1. SessionHandler_connect s w = Inr w1 \<and>
            SessionHandler_connect s w =
              StateManager_setConnectionStatus (fst (StateManager_getInstance w)) connecting
                (snd (StateManager_getInstance w)) \<and>
            StateManager_getInstance w1 = (fst (StateManager_getInstance w), w1) \<and>
            StateManager_getConnectionStatus (fst (StateManager_getInstance w)) w1 = Inr connecting \<and>
            StateManager_getConnectionStatus (fst (StateManager_getInstance w)) w1 \<noteq> Inr connected) \<and>
         (\<exists>w1. SessionHandler_disconnect s w = Inr w1 \<and>
            SessionHandler_disconnect s w =
              StateManager_setConnectionStatus (fst (StateManager_getInstance w)) disconnected
                (snd (StateManager_getInstance w)) \<and>
            StateManager_getInstance w1 = (fst (StateManager_getInstance w), w1) \<and>
            StateManager_getConnectionStatus (fst (StateManager_getInstance w)) w1 = Inr disconnected)"
proof -
  have wf: "well_formed w" using assms(1) by (rule run_well_formed)
  from setConnectionStatus_on_instance[OF wf, of connecting]
    setConnectionStatus_on_instance[OF wf, of disconnected]
  show ?thesis
    unfolding SessionHandler_connect_eq[OF assms(2)] SessionHandler_disconnect_eq[OF assms(2)]
    by auto
qed

theorem connect_disconnect_status_witness:
  "run [New_SessionHandler] init_world
     = Inr ([V_ref 0], \<lparr>heap = [SessionHandler_obj], StateManager_instance = None,
                        console = [[Text ''SessionHandler constructor'']]\<rparr>) \<and>
   is_SessionHandler \<lparr>heap = [SessionHandler_obj], StateManager_instance = None,
                      console = [[Text ''SessionHandler constructor'']]\<rparr> 0 \<and>
   (\<exists>w1. SessionHandler_connect 0
            \<lparr>heap = [SessionHandler_obj], StateManager_instance = None,
             console = [[Text ''SessionHandler constructor'']]\<rparr> = Inr w1 \<and>
          StateManager_getInstance w1 = (1, w1) \<and>
          StateManager_getConnectionStatus 1 w1 = Inr connecting) \<and>
   (\<exists>w1. SessionHandler_disconnect 0
            \<lparr>heap = [SessionHandler_obj], StateManager_instance = None,
             console = [[Text ''SessionHandler constructor'']]\<rparr> = Inr w1 \<and>
          StateManager_getInstance w1 = (1, w1) \<and>
          StateManager_getConnectionStatus 1 w1 = Inr disconnected)"
  (is "?run \<and> ?handler \<and> ?connect \<and> ?disconnect")
proof -
  have r: ?run by (simp add: model_defs)
  have h: ?handler by (simp add: is_SessionHandler_def lookup_def)
  have g: "fst (StateManager_getInstance
        \<lparr>heap = [SessionHandler_obj], StateManager_instance = None,
         console = [[Text ''SessionHandler constructor'']]\<rparr>) = 1"
    by (simp add: StateManager_getInstance_def StateManager_new_def alloc_def)
  from connect_disconnect_status [OF r h] have "?connect \<and> ?disconnect"
    unfolding g by blast
  with r h show ?thesis by blast
qed

text \<open>
  C4. In every state a client can reach, for any two \<^verbatim>\<open>SessionHandler\<close> objects \<open>s1\<close> and
  \<open>s2\<close> (different or the same): \<^verbatim>\<open>s1.sendMessage(m)\<close> succeeds, \<^verbatim>\<open>s2.getMessages()\<close>
  right afterwards returns a sequence that ends with \<open>m\<close>, and after any further public
  calls whatsoever \<^verbatim>\<open>s2.getMessages()\<close> still succeeds and returns a sequence that
  contains \<open>m\<close>.
\<close>

theorem message_visible_across_handlers:
  assumes "run cs init_world = Inr (vs, w)"
    and "is_SessionHandler w s1" and "is_SessionHandler w s2"
  shows "\<exists>w1. SessionHandler_sendMessage s1 m w = Inr w1 \<and>
           (\<exists>old. SessionHandler_getMessages s2 w1 = Inr (old @ [m], w1)) \<and>
           (\<forall>cs' vs' w2. run cs' w1 = Inr (vs', w2) \<longrightarrow>
              (\<exists>ms. SessionHandler_getMessages s2 w2 = Inr (ms, w2) \<and> m \<in> set ms))"
proof -
  have wf: "well_formed w" using assms(1) by (rule run_well_formed)
  let ?r = "fst (StateManager_getInstance w)" and ?w0 = "snd (StateManager_getInstance w)"
  from wf obtain sm where l: "lookup ?w0 ?r = Some (StateManager_obj sm)"
    by (rule getInstance_StateManager)
  let ?sm1 = "sm\<lparr>messages := messages sm @ [m]\<rparr>"
  let ?w1 = "store ?r (StateManager_obj ?sm1) (console_log [Text ''Pushing message:'', Logged m] ?w0)"
  have send: "SessionHandler_sendMessage s1 m w = Inr ?w1"
    using assms(2) l by (rule SessionHandler_sendMessage_eq)
  have i0: "StateManager_instance ?w0 = Some ?r"
    by (rule getInstance_instance) simp
  then have i1: "StateManager_instance ?w1 = Some ?r" by simp
  have l1: "lookup ?w1 ?r = Some (StateManager_obj ?sm1)"
    by (rule lookup_store_same[where x = "StateManager_obj sm"]) (simp add: l)
  have "exec (On_SessionHandler s1 (SendMessage m)) w = Inr (V_undefined, ?w1)"
    using send by (simp add: returning_def)
  then have ev: "evolves w ?w1" by (rule exec_evolves)
  have h1: "is_SessionHandler ?w1 s2"
    using evolves_SessionHandler[OF ev] assms(3) by (simp add: is_SessionHandler_def)
  have now: "\<exists>old. SessionHandler_getMessages s2 ?w1 = Inr (old @ [m], ?w1)"
    using SessionHandler_getMessages_instance[OF h1 i1 l1] by simp
  have later: "\<forall>cs' vs' w2. run cs' ?w1 = Inr (vs', w2) \<longrightarrow>
              (\<exists>ms. SessionHandler_getMessages s2 w2 = Inr (ms, w2) \<and> m \<in> set ms)"
  proof (intro allI impI)
    fix cs' vs' w2 assume "run cs' ?w1 = Inr (vs', w2)"
    then have ev2: "evolves ?w1 w2" by (rule run_evolves)
    from ev2 i1 have i2: "StateManager_instance w2 = Some ?r" by (rule evolves_instance)
    from ev2 l1 obtain sm2 ms as where l2: "lookup w2 ?r = Some (StateManager_obj sm2)"
      and m2: "messages sm2 = messages ?sm1 @ ms"
      by (rule evolves_StateManager)
    have h2: "is_SessionHandler w2 s2"
      using evolves_SessionHandler[OF ev2] h1 by (simp add: is_SessionHandler_def)
    from SessionHandler_getMessages_instance[OF h2 i2 l2] m2
    show "\<exists>ms. SessionHandler_getMessages s2 w2 = Inr (ms, w2) \<and> m \<in> set ms"
      by simp
  qed
  from send now later show ?thesis by simp
qed

theorem message_visible_across_handlers_witness:
  "run [New_SessionHandler, New_SessionHandler] init_world
     = Inr ([V_ref 0, V_ref 1],
         \<lparr>heap = [SessionHandler_obj, SessionHandler_obj], StateManager_instance = None,
          console = [[Text ''SessionHandler constructor''],
                     [Text ''SessionHandler constructor'']]\<rparr>) \<and>
   is_SessionHandler
         \<lparr>heap = [SessionHandler_obj, SessionHandler_obj], StateManager_instance = None,
          console = [[Text ''SessionHandler constructor''],
                     [Text ''SessionHandler constructor'']]\<rparr> 0 \<and>
   is_SessionHandler
         \<lparr>heap = [SessionHandler_obj, SessionHandler_obj], StateManager_instance = None,
          console = [[Text ''SessionHandler constructor''],
                     [Text ''SessionHandler constructor'']]\<rparr> 1 \<and>
   SessionHandler_sendMessage 0
         \<lparr>id_msg = None, content = ''hi'', sender = ''me'', timestamp = 5\<rparr>
         \<lparr>heap = [SessionHandler_obj, SessionHandler_obj], StateManager_instance = None,
          console = [[Text ''SessionHandler constructor''],
                     [Text ''SessionHandler constructor'']]\<rparr>
     = Inr \<lparr>heap = [SessionHandler_obj, SessionHandler_obj,
                    StateManager_obj
                      \<lparr>connectionStatus = disconnected,
                       messages = [\<lparr>id_msg = None, content = ''hi'', sender = ''me'',
                                    timestamp = 5\<rparr>],
                       attachments = []\<rparr>],
            StateManager_instance = Some 2,
            console = [[Text ''SessionHandler constructor''],
                       [Text ''SessionHandler constructor''],
                       [Text ''Pushing message:'',
                        Logged \<lparr>id_msg = None, content = ''hi'', sender = ''me'',
                                timestamp = 5\<rparr>]]\<rparr> \<and>
   run [On_SessionHandler 1 Connect]
         \<lparr>heap = [SessionHandler_obj, SessionHandler_obj,
                    StateManager_obj
                      \<lparr>connectionStatus = disconnected,
                       messages = [\<lparr>id_msg = None, content = ''hi'', sender = ''me'',
                                    timestamp = 5\<rparr>],
                       attachments = []\<rparr>],
            StateManager_instance = Some 2,
            console = [[Text ''SessionHandler constructor''],
                       [Text ''SessionHandler constructor''],
                       [Text ''Pushing message:'',
                        Logged \<lparr>id_msg = None, content = ''hi'', sender = ''me'',
                                timestamp = 5\<rparr>]]\<rparr>
     = Inr ([V_undefined],
          \<lparr>heap = [SessionHandler_obj, SessionHandler_obj,
                    StateManager_obj
                      \<lparr>connectionStatus = connecting,
                       messages = [\<lparr>id_msg = None, content = ''hi'', sender = ''me'',
                                    timestamp = 5\<rparr>],
                       attachments = []\<rparr>],
            StateManager_instance = Some 2,
            console = [[Text ''SessionHandler constructor''],
                       [Text ''SessionHandler constructor''],
                       [Text ''Pushing message:'',
                        Logged \<lparr>id_msg = None, content = ''hi'', sender = ''me'',
                                timestamp = 5\<rparr>]]\<rparr>) \<and>
   (\<exists>ms. SessionHandler_getMessages 1
          \<lparr>heap = [SessionHandler_obj, SessionHandler_obj,
                    StateManager_obj
                      \<lparr>connectionStatus = connecting,
                       messages = [\<lparr>id_msg = None, content = ''hi'', sender = ''me'',
                                    timestamp = 5\<rparr>],
                       attachments = []\<rparr>],
            StateManager_instance = Some 2,
            console = [[Text ''SessionHandler constructor''],
                       [Text ''SessionHandler constructor''],
                       [Text ''Pushing message:'',
                        Logged \<lparr>id_msg = None, content = ''hi'', sender = ''me'',
                                timestamp = 5\<rparr>]]\<rparr>
        = Inr (ms,
          \<lparr>heap = [SessionHandler_obj, SessionHandler_obj,
                    StateManager_obj
                      \<lparr>connectionStatus = connecting,
                       messages = [\<lparr>id_msg = None, content = ''hi'', sender = ''me'',
                                    timestamp = 5\<rparr>],
                       attachments = []\<rparr>],
            StateManager_instance = Some 2,
            console = [[Text ''SessionHandler constructor''],
                       [Text ''SessionHandler constructor''],
                       [Text ''Pushing message:'',
                        Logged \<lparr>id_msg = None, content = ''hi'', sender = ''me'',
                                timestamp = 5\<rparr>]]\<rparr>) \<and>
        \<lparr>id_msg = None, content = ''hi'', sender = ''me'', timestamp = 5\<rparr> \<in> set ms)"
  (is "run ?cs init_world = Inr (?vs, ?w) \<and> ?h0 \<and> ?h1 \<and>
       SessionHandler_sendMessage 0 ?m ?w = Inr ?w1 \<and> run ?cs' ?w1 = Inr (?vs', ?w2) \<and> ?later")
proof -
  have r: "run ?cs init_world = Inr (?vs, ?w)" by (simp add: model_defs)
  have h0: ?h0 and h1: ?h1 by (simp_all add: is_SessionHandler_def lookup_def)
  have s: "SessionHandler_sendMessage 0 ?m ?w = Inr ?w1" by (simp add: model_defs)
  have r': "run ?cs' ?w1 = Inr (?vs', ?w2)" by (simp add: model_defs)
  from message_visible_across_handlers [OF r h0 h1, of ?m] s r'
  have ?later by (simp del: run.simps)
  with r h0 h1 s r' show ?thesis by blast
qed

text \<open>
  C5. On any \<^verbatim>\<open>StateManager\<close> object, whatever its state, \<^verbatim>\<open>setConnectionStatus(a)\<close>
  followed by \<^verbatim>\<open>setConnectionStatus(b)\<close> both succeed, for all \<open>a\<close> and \<open>b\<close> (equal or
  not), and \<^verbatim>\<open>getConnectionStatus()\<close> then returns \<open>b\<close>.
\<close>

theorem setConnectionStatus_overwrites:
  assumes "lookup w r = Some (StateManager_obj sm)"
  shows "\<exists>w1 w2. StateManager_setConnectionStatus r a w = Inr w1
      \<and> StateManager_setConnectionStatus r b w1 = Inr w2
      \<and> StateManager_getConnectionStatus r w2 = Inr b"
proof -
  from assms have less: "r < length (heap w)" by (rule lookup_Some_less)
  let ?w1 = "store r (StateManager_obj (sm\<lparr>connectionStatus := a\<rparr>)) w"
  let ?w2 = "store r (StateManager_obj (sm\<lparr>connectionStatus := a, connectionStatus := b\<rparr>)) ?w1"
  have 1: "StateManager_setConnectionStatus r a w = Inr ?w1"
    using assms by (rule setConnectionStatus_eq)
  have l1: "lookup ?w1 r = Some (StateManager_obj (sm\<lparr>connectionStatus := a\<rparr>))"
    using less by simp
  have 2: "StateManager_setConnectionStatus r b ?w1 = Inr ?w2"
    using l1 by (rule setConnectionStatus_eq)
  have l2: "lookup ?w2 r
      = Some (StateManager_obj (sm\<lparr>connectionStatus := a, connectionStatus := b\<rparr>))"
    using less by simp
  have 3: "StateManager_getConnectionStatus r ?w2 = Inr b"
    using getConnectionStatus_eq[OF l2] by simp
  from 1 2 3 show ?thesis by blast
qed

theorem setConnectionStatus_overwrites_witness:
  "lookup (snd (StateManager_getInstance init_world)) 0
     = Some (StateManager_obj \<lparr>connectionStatus = disconnected, messages = [], attachments = []\<rparr>) \<and>
   (\<exists>w1 w2. StateManager_setConnectionStatus 0 connected (snd (StateManager_getInstance init_world)) = Inr w1
      \<and> StateManager_setConnectionStatus 0 connected w1 = Inr w2
      \<and> StateManager_getConnectionStatus 0 w2 = Inr connected)"
proof -
  have l: "lookup (snd (StateManager_getInstance init_world)) 0
     = Some (StateManager_obj \<lparr>connectionStatus = disconnected, messages = [], attachments = []\<rparr>)"
    by (simp add: init_world_def StateManager_getInstance_def StateManager_new_def alloc_def
        lookup_def)
  from l setConnectionStatus_overwrites [OF l, of connected connected] show ?thesis
    by simp
qed

text \<open>
  C6. The script: from the initial state, \<^verbatim>\<open>new KKTLiveChatSDK()\<close>, then \<^verbatim>\<open>connect()\<close>,
  after which the status read through the accessor is \<^verbatim>\<open>"connecting"\<close>; then the two
  \<^verbatim>\<open>sendMessage\<close> calls, with \<open>t1\<close> and \<open>t2\<close> for the two values of \<^verbatim>\<open>Date.now()\<close>;
  then \<^verbatim>\<open>getMessages()\<close> returns the two messages, first the first, with the fields they
  were given, and the status is still \<^verbatim>\<open>"connecting"\<close>. Every step succeeds, and \<open>main\<close>,
  which is these steps and the logging of the script, ends normally.
\<close>

theorem end_to_end_scenario:
  "\<exists>sdk w1 w2 w3 w4.
     KKTLiveChatSDK_new init_world = (sdk, w1) \<and>
     KKTLiveChatSDK_connect sdk w1 = Inr w2 \<and>
     StateManager_getConnectionStatus (fst (StateManager_getInstance w2))
       (snd (StateManager_getInstance w2)) = Inr connecting \<and>
     KKTLiveChatSDK_sendMessage sdk
       \<lparr>id_msg = None, content = ''Hello, how are you?'', sender = ''John Doe'',
        timestamp = t1\<rparr> w2 = Inr w3 \<and>
     KKTLiveChatSDK_sendMessage sdk
       \<lparr>id_msg = None, content = ''I need your help to fix my computer'', sender = ''John Doe'',
        timestamp = t2\<rparr> w3 = Inr w4 \<and>
     KKTLiveChatSDK_getMessages sdk w4 =
       Inr (Some [\<lparr>id_msg = None, content = ''Hello, how are you?'', sender = ''John Doe'',
                   timestamp = t1\<rparr>,
                  \<lparr>id_msg = None, content = ''I need your help to fix my computer'',
                   sender = ''John Doe'', timestamp = t2\<rparr>], w4) \<and>
     StateManager_getConnectionStatus (fst (StateManager_getInstance w4))
       (snd (StateManager_getInstance w4)) = Inr connecting \<and>
     main t1 t2 init_world =
       Inr (sdk, forEach_log
         [\<lparr>id_msg = None, content = ''Hello, how are you?'', sender = ''John Doe'',
           timestamp = t1\<rparr>,
          \<lparr>id_msg = None, content = ''I need your help to fix my computer'',
           sender = ''John Doe'', timestamp = t2\<rparr>]
         (console_log [Text (CHR 0x0A # ''Messages to send:'')] w4))"
  by (simp add: model_defs main_def)

text \<open>
  C7. Take any program that only creates facades and calls their methods (\<^verbatim>\<open>connect\<close>,
  \<^verbatim>\<open>disconnect\<close>, \<^verbatim>\<open>sendMessage\<close>, \<^verbatim>\<open>sendAttachment\<close>, \<^verbatim>\<open>getMessages\<close>,
  \<^verbatim>\<open>getAttachments\<close>, on either facade class), started in the initial state. In the state
  it reaches, no \<^verbatim>\<open>StateManager\<close> has the status \<^verbatim>\<open>"connected"\<close>, and reading the status
  through the accessor succeeds with a value other than \<^verbatim>\<open>"connected"\<close>. Every state on
  the way is the state reached by a shorter such program.
\<close>

theorem facade_calls_never_connected:
  assumes "run cs init_world = Inr (vs, w)" and "list_all facade_call cs"
  shows "(\<forall>r sm. StateManager_at w r = Some sm \<longrightarrow> connectionStatus sm \<noteq> connected) \<and>
     (\<exists>s. StateManager_getConnectionStatus (fst (StateManager_getInstance w))
             (snd (StateManager_getInstance w)) = Inr s \<and> s \<noteq> connected)"
proof -
  have nc: "never_connected w"
    using assms(1) never_connected_init assms(2) by (rule run_never_connected)
  have wf: "well_formed w" using assms(1) by (rule run_well_formed)
  let ?r = "fst (StateManager_getInstance w)" and ?w1 = "snd (StateManager_getInstance w)"
  from wf obtain sm where sm: "lookup ?w1 ?r = Some (StateManager_obj sm)"
    by (rule getInstance_StateManager)
  have "never_connected ?w1" using nc by (rule never_connected_getInstance)
  then have "connectionStatus sm \<noteq> connected" using sm by (rule never_connectedD)
  moreover have "StateManager_getConnectionStatus ?r ?w1 = Inr (connectionStatus sm)"
    using sm by (rule getConnectionStatus_eq)
  ultimately have "\<exists>s. StateManager_getConnectionStatus ?r ?w1 = Inr s \<and> s \<noteq> connected"
    by simp
  moreover have "\<forall>r sm. StateManager_at w r = Some sm \<longrightarrow> connectionStatus sm \<noteq> connected"
    using nc by (simp add: never_connected_def StateManager_at_Some)
  ultimately show ?thesis by simp
qed

theorem facade_calls_never_connected_witness:
  "run [New_KKTLiveChatSDK, On_KKTLiveChatSDK 0 Connect, New_SessionHandler,
        On_SessionHandler 3 Disconnect, On_KKTLiveChatSDK 0 Connect] init_world
     = Inr ([V_ref 0, V_undefined, V_ref 3, V_undefined, V_undefined],
         \<lparr>heap = [KKTLiveChatSDK_obj \<lparr>sessionHandler = Some 1\<rparr>, SessionHandler_obj,
                  StateManager_obj
                    \<lparr>connectionStatus = connecting, messages = [], attachments = []\<rparr>,
                  SessionHandler_obj],
          StateManager_instance = Some 2,
          console = [[Text ''KKTLiveChatSDK constructor''], [Text ''SessionHandler constructor''],
                     [Text ''SessionHandler constructor'']]\<rparr>) \<and>
   list_all facade_call [New_KKTLiveChatSDK, On_KKTLiveChatSDK 0 Connect, New_SessionHandler,
        On_SessionHandler 3 Disconnect, On_KKTLiveChatSDK 0 Connect] \<and>
   (\<exists>s. StateManager_getConnectionStatus 2
          \<lparr>heap = [KKTLiveChatSDK_obj \<lparr>sessionHandler = Some 1\<rparr>, SessionHandler_obj,
                  StateManager_obj
                    \<lparr>connectionStatus = connecting, messages = [], attachments = []\<rparr>,
                  SessionHandler_obj],
          StateManager_instance = Some 2,
          console = [[Text ''KKTLiveChatSDK constructor''], [Text ''SessionHandler constructor''],
                     [Text ''SessionHandler constructor'']]\<rparr> = Inr s \<and> s \<noteq> connected)"
  (is "?run \<and> ?facade \<and> ?status")
proof -
  have r: ?run by (simp add: model_defs)
  have f: ?facade by simp
  from facade_calls_never_connected [OF r f] have ?status
    by (simp add: StateManager_getInstance_def)
  with r f show ?thesis by blast
qed

text \<open>
  C8. On any \<^verbatim>\<open>StateManager\<close> object, each of the three mutators succeeds and changes
  only its own part: after \<^verbatim>\<open>pushAttachment\<close> the messages and the status read as before
  (and the attachment is at the end of the attachments), after \<^verbatim>\<open>pushMessage\<close> the
  attachments and the status read as before (and the message is at the end of the
  messages), and after \<^verbatim>\<open>setConnectionStatus\<close> both sequences read as before.
\<close>

theorem channels_independent:
  assumes "lookup w r = Some (StateManager_obj sm)"
  shows "(\<exists>w'. StateManager_pushAttachment r a w = Inr w' \<and>
            StateManager_getMessages r w = Inr (messages sm) \<and>
            StateManager_getMessages r w' = Inr (messages sm) \<and>
            StateManager_getConnectionStatus r w = Inr (connectionStatus sm) \<and>
            StateManager_getConnectionStatus r w' = Inr (connectionStatus sm) \<and>
            StateManager_getAttachments r w' = Inr (attachments sm @ [a])) \<and>
         (\<exists>w'. StateManager_pushMessage r m w = Inr w' \<and>
            StateManager_getAttachments r w = Inr (attachments sm) \<and>
            StateManager_getAttachments r w' = Inr (attachments sm) \<and>
            StateManager_getConnectionStatus r w' = Inr (connectionStatus sm) \<and>
            StateManager_getMessages r w' = Inr (messages sm @ [m])) \<and>
         (\<exists>w'. StateManager_setConnectionStatus r s w = Inr w' \<and>
            StateManager_getMessages r w' = Inr (messages sm) \<and>
            StateManager_getAttachments r w' = Inr (attachments sm) \<and>
            StateManager_getConnectionStatus r w' = Inr s)"
proof -
  let ?wa = "store r (StateManager_obj (sm\<lparr>attachments := attachments sm @ [a]\<rparr>)) w"
  let ?wm = "store r (StateManager_obj (sm\<lparr>messages := messages sm @ [m]\<rparr>))
               (console_log [Text ''Pushing message:'', Logged m] w)"
  let ?ws = "store r (StateManager_obj (sm\<lparr>connectionStatus := s\<rparr>)) w"
  have la: "lookup ?wa r = Some (StateManager_obj (sm\<lparr>attachments := attachments sm @ [a]\<rparr>))"
    using assms by (rule lookup_store_same)
  have lm: "lookup ?wm r = Some (StateManager_obj (sm\<lparr>messages := messages sm @ [m]\<rparr>))"
    by (rule lookup_store_same[where x = "StateManager_obj sm"]) (simp add: assms)
  have ls: "lookup ?ws r = Some (StateManager_obj (sm\<lparr>connectionStatus := s\<rparr>))"
    using assms by (rule lookup_store_same)
  have A: "StateManager_pushAttachment r a w = Inr ?wa"
    using assms by (rule pushAttachment_eq)
  have M: "StateManager_pushMessage r m w = Inr ?wm"
    using assms by (rule pushMessage_eq)
  have S: "StateManager_setConnectionStatus r s w = Inr ?ws"
    using assms by (rule setConnectionStatus_eq)
  show ?thesis
    unfolding A M S
    using getMessages_eq[OF assms] getConnectionStatus_eq[OF assms] getAttachments_eq[OF assms]
      getMessages_eq[OF la] getConnectionStatus_eq[OF la] getAttachments_eq[OF la]
      getMessages_eq[OF lm] getConnectionStatus_eq[OF lm] getAttachments_eq[OF lm]
      getMessages_eq[OF ls] getConnectionStatus_eq[OF ls] getAttachments_eq[OF ls]
    by simp
qed

theorem channels_independent_witness:
  "lookup (snd (StateManager_getInstance init_world)) 0
     = Some (StateManager_obj \<lparr>connectionStatus = disconnected, messages = [], attachments = []\<rparr>) \<and>
   (\<exists>w'. StateManager_pushAttachment 0
            \<lparr>id_att = None, url = ''u'', type_att = ''t'', size_att = 1, file_att = None\<rparr>
            (snd (StateManager_getInstance init_world)) = Inr w' \<and>
          StateManager_getMessages 0 w' = Inr [] \<and>
          StateManager_getConnectionStatus 0 w' = Inr disconnected) \<and>
   (\<exists>w'. StateManager_pushMessage 0
            \<lparr>id_msg = None, content = ''c'', sender = ''s'', timestamp = 1\<rparr>
            (snd (StateManager_getInstance init_world)) = Inr w' \<and>
          StateManager_getAttachments 0 w' = Inr [] \<and>
          StateManager_getConnectionStatus 0 w' = Inr disconnected)"
proof -
  have l: "lookup (snd (StateManager_getInstance init_world)) 0
     = Some (StateManager_obj \<lparr>connectionStatus = disconnected, messages = [], attachments = []\<rparr>)"
    by (simp add: init_world_def StateManager_getInstance_def StateManager_new_def alloc_def
        lookup_def)
  from l channels_independent [OF l,
      of "\<lparr>id_att = None, url = ''u'', type_att = ''t'', size_att = 1, file_att = None\<rparr>"
         "\<lparr>id_msg = None, content = ''c'', sender = ''s'', timestamp = 1\<rparr>" connected]
  show ?thesis by simp blast
qed

text \<open>
  C9. In every state a client can reach from the initial state by public calls, every public
  call whose receiver is an object of the class that has the method succeeds, whatever its
  arguments. The field of every \<^verbatim>\<open>KKTLiveChatSDK\<close> in such a state refers to a
  \<^verbatim>\<open>SessionHandler\<close>, so the \<^verbatim>\<open>?.\<close> never takes its \<^verbatim>\<open>undefined\<close> branch, and
  \<^verbatim>\<open>getMessages()\<close> and \<^verbatim>\<open>getAttachments()\<close> of a \<^verbatim>\<open>KKTLiveChatSDK\<close> return an array,
  not \<^verbatim>\<open>undefined\<close>. The same holds for the object a further \<^verbatim>\<open>new KKTLiveChatSDK()\<close>
  creates.
\<close>

theorem public_calls_never_fail:
  assumes "run cs init_world = Inr (vs, w)"
  shows "(\<forall>c. receiver_ok c w \<longrightarrow> (\<exists>v w'. exec c w = Inr (v, w'))) \<and>
     (\<forall>r k. KKTLiveChatSDK_at w r = Some k \<longrightarrow>
        (\<exists>sh. sessionHandler k = Some sh \<and> is_SessionHandler w sh)) \<and>
     (\<forall>r. KKTLiveChatSDK_at w r \<noteq> None \<longrightarrow>
        (\<exists>ms w'. KKTLiveChatSDK_getMessages r w = Inr (Some ms, w')) \<and>
        (\<exists>as w'. KKTLiveChatSDK_getAttachments r w = Inr (Some as, w'))) \<and>
     (\<exists>r w1. KKTLiveChatSDK_new w = (r, w1) \<and> KKTLiveChatSDK_at w1 r \<noteq> None \<and>
        (\<exists>ms w'. KKTLiveChatSDK_getMessages r w1 = Inr (Some ms, w')) \<and>
        (\<exists>as w'. KKTLiveChatSDK_getAttachments r w1 = Inr (Some as, w')))"
proof -
  have wf: "well_formed w" using assms by (rule run_well_formed)
  have 1: "\<forall>c. receiver_ok c w \<longrightarrow> (\<exists>v w'. exec c w = Inr (v, w'))"
    using wf by (blast intro: exec_ok)
  have 2: "\<forall>r k. KKTLiveChatSDK_at w r = Some k \<longrightarrow>
        (\<exists>sh. sessionHandler k = Some sh \<and> is_SessionHandler w sh)"
    using wf_sessionHandler[OF wf] by (simp add: KKTLiveChatSDK_at_Some is_SessionHandler_def)
  have 3: "\<forall>r. KKTLiveChatSDK_at w r \<noteq> None \<longrightarrow>
        (\<exists>ms w'. KKTLiveChatSDK_getMessages r w = Inr (Some ms, w')) \<and>
        (\<exists>as w'. KKTLiveChatSDK_getAttachments r w = Inr (Some as, w'))"
    using KKTLiveChatSDK_getters_present[OF wf] by (auto simp: KKTLiveChatSDK_at_Some)
  let ?r = "fst (KKTLiveChatSDK_new w)" and ?w1 = "snd (KKTLiveChatSDK_new w)"
  have wf1: "well_formed ?w1" using wf by (rule wf_KKTLiveChatSDK_new)
  have l: "lookup ?w1 ?r
      = Some (KKTLiveChatSDK_obj \<lparr>sessionHandler = Some (Suc (length (heap w)))\<rparr>)"
    by (simp add: lookup_KKTLiveChatSDK_new) (simp add: KKTLiveChatSDK_new_eq)
  then have "KKTLiveChatSDK_at ?w1 ?r \<noteq> None"
    by (simp add: KKTLiveChatSDK_at_def)
  with KKTLiveChatSDK_getters_present[OF wf1 l]
  have 4: "\<exists>r w1. KKTLiveChatSDK_new w = (r, w1) \<and> KKTLiveChatSDK_at w1 r \<noteq> None \<and>
        (\<exists>ms w'. KKTLiveChatSDK_getMessages r w1 = Inr (Some ms, w')) \<and>
        (\<exists>as w'. KKTLiveChatSDK_getAttachments r w1 = Inr (Some as, w'))"
    by (intro exI[of _ ?r] exI[of _ ?w1]) simp
  from 1 2 3 4 show ?thesis by blast
qed

theorem public_calls_never_fail_witness:
  "run [New_KKTLiveChatSDK] init_world
     = Inr ([V_ref 0],
         \<lparr>heap = [KKTLiveChatSDK_obj \<lparr>sessionHandler = Some 1\<rparr>, SessionHandler_obj],
          StateManager_instance = None,
          console = [[Text ''KKTLiveChatSDK constructor''],
                     [Text ''SessionHandler constructor'']]\<rparr>) \<and>
   (\<exists>v w'. exec (On_KKTLiveChatSDK 0
               (SendMessage \<lparr>id_msg = None, content = [], sender = [], timestamp = - 1\<rparr>))
          \<lparr>heap = [KKTLiveChatSDK_obj \<lparr>sessionHandler = Some 1\<rparr>, SessionHandler_obj],
           StateManager_instance = None,
           console = [[Text ''KKTLiveChatSDK constructor''],
                      [Text ''SessionHandler constructor'']]\<rparr> = Inr (v, w')) \<and>
   (\<exists>ms w'. KKTLiveChatSDK_getMessages 0
          \<lparr>heap = [KKTLiveChatSDK_obj \<lparr>sessionHandler = Some 1\<rparr>, SessionHandler_obj],
           StateManager_instance = None,
           console = [[Text ''KKTLiveChatSDK constructor''],
                      [Text ''SessionHandler constructor'']]\<rparr> = Inr (Some ms, w'))"
  (is "?run \<and> ?send \<and> ?get")
proof -
  have r: ?run by (simp add: model_defs)
  note th = public_calls_never_fail [OF r]
  have k: "KKTLiveChatSDK_at
          \<lparr>heap = [KKTLiveChatSDK_obj \<lparr>sessionHandler = Some 1\<rparr>, SessionHandler_obj],
           StateManager_instance = None,
           console = [[Text ''KKTLiveChatSDK constructor''],
                      [Text ''SessionHandler constructor'']]\<rparr> 0 \<noteq> None"
    by (simp add: KKTLiveChatSDK_at_def lookup_def)
  from th k have s: ?send by (simp del: exec.simps)
  from th k have g: ?get by blast
  from r s g show ?thesis by blast
qed

text \<open>
  C10. When the accessor finds the static field empty it constructs the instance: the
  reference it returns was not in use before, it is stored in the static field, and the new
  object has status \<^verbatim>\<open>"disconnected"\<close>, no messages and no attachments. The accessor takes
  no argument besides the state and has no error result: it cannot fail.
\<close>

theorem StateManager_initial_fields:
  assumes "StateManager_instance w = None"
  shows "\<exists>r w'. StateManager_getInstance w = (r, w') \<and> StateManager_instance w' = Some r
      \<and> lookup w r = None
      \<and> lookup w' r = Some (StateManager_obj
            \<lparr>connectionStatus = disconnected, messages = [], attachments = []\<rparr>)
      \<and> StateManager_getConnectionStatus r w' = Inr disconnected
      \<and> StateManager_getMessages r w' = Inr []
      \<and> StateManager_getAttachments r w' = Inr []"
  using assms
  by (simp add: getInstance_None getConnectionStatus_eq getMessages_eq getAttachments_eq)

theorem StateManager_initial_fields_witness:
  "StateManager_instance init_world = None \<and>
   StateManager_getInstance init_world =
     (0, \<lparr>heap = [StateManager_obj
                    \<lparr>connectionStatus = disconnected, messages = [], attachments = []\<rparr>],
          StateManager_instance = Some 0, console = []\<rparr>) \<and>
   StateManager_getConnectionStatus 0 (snd (StateManager_getInstance init_world)) = Inr disconnected \<and>
   StateManager_getMessages 0 (snd (StateManager_getInstance init_world)) = Inr [] \<and>
   StateManager_getAttachments 0 (snd (StateManager_getInstance init_world)) = Inr []"
  using StateManager_initial_fields [of init_world]
  by (auto simp: init_world_def StateManager_getInstance_def StateManager_new_def alloc_def)

end
